theory Spec2Isabelle
  imports Complex_Main "HOL-Library.Multiset" "HOL-Library.Product_Lexorder"
begin

section \<open>JavaScript values\<close>

text \<open>
  The tracker works on values that come out of \<^verbatim>\<open>JSON.parse\<close> (the ATT&CK bundle, an
  imported file) and on the objects it builds itself. A value read from a bundle can be
  of any JSON kind, and a property that is absent reads as \<^verbatim>\<open>undefined\<close>.
  An object is its list of properties; the first binding of a key is the one that counts.
\<close>

datatype jsval =
    JUndefined
  | JNull
  | JBool bool
  | JNum rat
  | JStr string
  | JArr "jsval list"
  | JObj "(string \<times> jsval) list"

text \<open>The only exception the modelled code can raise is a \<^verbatim>\<open>TypeError\<close>.\<close>

datatype error = TypeError

definition bindE :: "error + 'a \<Rightarrow> ('a \<Rightarrow> error + 'b) \<Rightarrow> error + 'b" where
  "bindE m f = (case m of Inl e \<Rightarrow> Inl e | Inr x \<Rightarrow> f x)"

text \<open>Truthiness, as \<^verbatim>\<open>!v\<close>, \<^verbatim>\<open>v && w\<close>, \<^verbatim>\<open>v || w\<close> and \<^verbatim>\<open>if (v)\<close> use it.\<close>

fun truthy :: "jsval \<Rightarrow> bool" where
  "truthy JUndefined = False"
| "truthy JNull = False"
| "truthy (JBool b) = b"
| "truthy (JNum n) = (n \<noteq> 0)"
| "truthy (JStr s) = (s \<noteq> [])"
| "truthy (JArr xs) = True"
| "truthy (JObj ps) = True"

text \<open>
  Reading a property \<^verbatim>\<open>v.k\<close>, for the data keys the tracker reads (none of them is a
  member of a built-in prototype): a \<^verbatim>\<open>TypeError\<close> on \<^verbatim>\<open>undefined\<close> and \<^verbatim>\<open>null\<close>, the
  bound value on an object that has the key, \<^verbatim>\<open>undefined\<close> everywhere else.
\<close>

fun getProp :: "jsval \<Rightarrow> string \<Rightarrow> error + jsval" where
  "getProp JUndefined k = Inl TypeError"
| "getProp JNull k = Inl TypeError"
| "getProp (JObj ps) k = Inr (case map_of ps k of None \<Rightarrow> JUndefined | Some v \<Rightarrow> v)"
| "getProp v k = Inr JUndefined"

text \<open>
  Calling an array method (\<^verbatim>\<open>find\<close>, \<^verbatim>\<open>filter\<close>, \<^verbatim>\<open>map\<close>) on a value: only an array has
  one; on any other value the call raises (\<^verbatim>\<open>x.find is not a function\<close>).
\<close>

fun asArray :: "jsval \<Rightarrow> error + jsval list" where
  "asArray (JArr xs) = Inr xs"
| "asArray v = Inl TypeError"

text \<open>
  \<^verbatim>\<open>a === b\<close> and the SameValueZero test of \<^verbatim>\<open>Array.prototype.includes\<close>, for two values
  that come from different places of parsed documents: primitives are compared by value,
  two arrays or objects are never the same reference.
\<close>

fun strictEq :: "jsval \<Rightarrow> jsval \<Rightarrow> bool" where
  "strictEq (JArr xs) b = False"
| "strictEq (JObj ps) b = False"
| "strictEq a b = (a = b)"

definition includesVal :: "jsval list \<Rightarrow> jsval \<Rightarrow> bool" where
  "includesVal xs v = list_ex (\<lambda>x. strictEq x v) xs"

section \<open>JavaScript numbers\<close>

text \<open>
  A number is \<^verbatim>\<open>NaN\<close>, an infinity or a finite double, kept as the rational it
  stands for; the arithmetic operations round their exact result to the nearest double.
  The sign of zero is not kept.
\<close>

datatype jsnum = NaN | PInf | NInf | Fin rat

text \<open>
  Rounding to the nearest double (IEEE 754 binary64, ties to even): a value with
  \<open>2^e \<le> |x| < 2^(e+1)\<close> is rounded to a multiple of \<open>2^(e-52)\<close>, of \<open>2^(-1074)\<close> in the
  subnormal range, and a result of \<open>2^1024\<close> or more is an infinity.
\<close>

function bitLength :: "int \<Rightarrow> int" where
  "bitLength n = (if n \<le> 0 then 0 else 1 + bitLength (n div 2))"
  by pat_completeness auto
termination
  by (relation "measure nat") auto

declare bitLength.simps [simp del]

definition floorLog2 :: "rat \<Rightarrow> int" where
  "floorLog2 a =
     (let (p, q) = quotient_of a;
          e0 = bitLength p - bitLength q
      in if 2 powi e0 \<le> a then e0 else e0 - 1)"

definition roundHalfEven :: "rat \<Rightarrow> int" where
  "roundHalfEven q =
     (let f = \<lfloor>q\<rfloor>; d = q - of_int f
      in if d < 1 / 2 then f
         else if 1 / 2 < d then f + 1
         else if even f then f else f + 1)"

definition toDouble :: "rat \<Rightarrow> jsnum" where
  "toDouble x =
     (if x = 0 then Fin 0
      else (let a = \<bar>x\<bar>;
                e = max (floorLog2 a) (- 1022);
                ulp = 2 powi (e - 52);
                r = of_int (roundHalfEven (a / ulp)) * ulp
            in if 2 powi 1024 \<le> r then (if 0 < x then PInf else NInf)
               else Fin (if 0 < x then r else - r)))"

fun jsAdd :: "jsnum \<Rightarrow> jsnum \<Rightarrow> jsnum" where
  "jsAdd NaN b = NaN"
| "jsAdd a NaN = NaN"
| "jsAdd (Fin a) (Fin b) = toDouble (a + b)"
| "jsAdd PInf NInf = NaN"
| "jsAdd NInf PInf = NaN"
| "jsAdd PInf b = PInf"
| "jsAdd NInf b = NInf"
| "jsAdd (Fin a) b = b"

fun jsNeg :: "jsnum \<Rightarrow> jsnum" where
  "jsNeg NaN = NaN"
| "jsNeg PInf = NInf"
| "jsNeg NInf = PInf"
| "jsNeg (Fin a) = Fin (- a)"

definition jsSub :: "jsnum \<Rightarrow> jsnum \<Rightarrow> jsnum" where
  "jsSub a b = jsAdd a (jsNeg b)"

fun jsMul :: "jsnum \<Rightarrow> jsnum \<Rightarrow> jsnum" where
  "jsMul NaN b = NaN"
| "jsMul a NaN = NaN"
| "jsMul (Fin a) (Fin b) = toDouble (a * b)"
| "jsMul (Fin a) PInf = (if a = 0 then NaN else if 0 < a then PInf else NInf)"
| "jsMul (Fin a) NInf = (if a = 0 then NaN else if 0 < a then NInf else PInf)"
| "jsMul PInf (Fin b) = (if b = 0 then NaN else if 0 < b then PInf else NInf)"
| "jsMul NInf (Fin b) = (if b = 0 then NaN else if 0 < b then NInf else PInf)"
| "jsMul PInf PInf = PInf"
| "jsMul NInf NInf = PInf"
| "jsMul PInf NInf = NInf"
| "jsMul NInf PInf = NInf"

fun jsDiv :: "jsnum \<Rightarrow> jsnum \<Rightarrow> jsnum" where
  "jsDiv NaN b = NaN"
| "jsDiv a NaN = NaN"
| "jsDiv (Fin a) (Fin b) =
     (if b = 0 then (if a = 0 then NaN else if 0 < a then PInf else NInf)
      else toDouble (a / b))"
| "jsDiv (Fin a) b = Fin 0"
| "jsDiv PInf (Fin b) = (if 0 \<le> b then PInf else NInf)"
| "jsDiv NInf (Fin b) = (if 0 \<le> b then NInf else PInf)"
| "jsDiv a b = NaN"

text \<open>\<^verbatim>\<open>a !== b\<close> on numbers: \<^verbatim>\<open>NaN\<close> differs from everything, itself included.\<close>

definition jsStrictNeq :: "jsnum \<Rightarrow> jsnum \<Rightarrow> bool" where
  "jsStrictNeq a b = (a = NaN \<or> b = NaN \<or> a \<noteq> b)"

section \<open>Detections and the coverage engine\<close>

text \<open>
  A detection rule as \<^verbatim>\<open>saveDetection\<close> builds it. \<^verbatim>\<open>createdAt\<close> is a property that the
  create path adds after the object literal is built, so it may be absent.
\<close>

record detection =
  id_det :: string
  name_det :: string
  description_det :: string
  platform :: string
  severity :: string
  isActive :: bool
  technique1 :: string
  technique2 :: string
  technique3 :: string
  updatedAt :: string
  createdAt :: "string option"

text \<open>The three reference slots of a detection, as a list.\<close>

definition techniqueRefs :: "detection \<Rightarrow> string list" where
  "techniqueRefs det = [technique1 det, technique2 det, technique3 det]"

text \<open>
  \<^verbatim>\<open>getDetectionRulesForTechnique(techniqueId)\<close>. A slot holds a string, so
  \<^verbatim>\<open>det.technique1 === techniqueId\<close> holds exactly when the id is that string.
\<close>

definition matchesTechnique :: "jsval \<Rightarrow> detection \<Rightarrow> bool" where
  "matchesTechnique techniqueId det =
     (isActive det \<and>
      (JStr (technique1 det) = techniqueId \<or>
       JStr (technique2 det) = techniqueId \<or>
       JStr (technique3 det) = techniqueId))"

definition getDetectionRulesForTechnique :: "detection list \<Rightarrow> jsval \<Rightarrow> nat" where
  "getDetectionRulesForTechnique detections techniqueId =
     length (filter (matchesTechnique techniqueId) detections)"

text \<open>A technique as the normalizer's \<^verbatim>\<open>map\<close> callback builds it.\<close>

record technique =
  id_tech :: jsval
  stixId :: jsval
  name_tech :: jsval
  description_tech :: jsval
  isSubTechnique :: bool
  parentId :: jsval
  tactics_tech :: "jsval list"
  platforms :: jsval
  url :: jsval

record mitreTactic =
  id_tac :: jsval
  name_tac :: jsval
  shortName :: jsval
  description_tac :: jsval

definition getTechniqueStatus :: "detection list \<Rightarrow> technique \<Rightarrow> string" where
  "getTechniqueStatus detections tech =
     (let detectionRules = getDetectionRulesForTechnique detections (id_tech tech)
      in if 0 < detectionRules then ''detected'' else ''not detected'')"

definition calculateCoverage :: "detection list \<Rightarrow> technique \<Rightarrow> jsnum" where
  "calculateCoverage detections tech =
     (let status = getTechniqueStatus detections tech
      in if status = ''detected'' then Fin 1 else Fin 0)"

text \<open>
  The accumulation loop shared by the dashboard and the tactic cards:
  \<^verbatim>\<open>let totalCoverage = 0; techs.forEach(tech => { totalCoverage += calculateCoverage(tech) })\<close>.
\<close>

definition totalCoverage :: "detection list \<Rightarrow> technique list \<Rightarrow> jsnum" where
  "totalCoverage detections techs =
     foldl (\<lambda>acc tech. jsAdd acc (calculateCoverage detections tech)) (Fin 0) techs"

text \<open>
  \<^verbatim>\<open>renderDashboard\<close>: the number \<^verbatim>\<open>(totalCoverage / this.techniques.length) * 100\<close>
  that is formatted into the overall coverage figure.
\<close>

definition overallCoveragePercent :: "detection list \<Rightarrow> technique list \<Rightarrow> jsnum" where
  "overallCoveragePercent detections techs =
     jsMul (jsDiv (totalCoverage detections techs) (Fin (of_nat (length techs)))) (Fin 100)"

text \<open>\<^verbatim>\<open>renderTacticCoverage\<close>: one entry per tactic.\<close>

record tacticCoverageEntry =
  name_entry :: jsval
  coverage :: jsnum
  count_entry :: nat

definition tacticTechniques :: "technique list \<Rightarrow> mitreTactic \<Rightarrow> technique list" where
  "tacticTechniques techs tac =
     filter (\<lambda>tech. includesVal (tactics_tech tech) (shortName tac)) techs"

definition tacticCoverage :: "detection list \<Rightarrow> technique list \<Rightarrow> mitreTactic \<Rightarrow> tacticCoverageEntry" where
  "tacticCoverage detections techs tac =
     (let tts = tacticTechniques techs tac;
          total = totalCoverage detections tts;
          coveragePercent =
            (if 0 < length tts
             then jsMul (jsDiv total (Fin (of_nat (length tts)))) (Fin 100)
             else Fin 0)
      in \<lparr>name_entry = name_tac tac, coverage = coveragePercent, count_entry = length tts\<rparr>)"

definition tacticCoverageData :: "detection list \<Rightarrow> technique list \<Rightarrow> mitreTactic list \<Rightarrow> tacticCoverageEntry list" where
  "tacticCoverageData detections techs tacs = map (tacticCoverage detections techs) tacs"

text \<open>
  From the specification's words, for comparison with the code: the arithmetic mean,
  the mean of no values being 0; and the unit contribution \<^verbatim>\<open>coverageValue\<close> of a
  technique, 1 when some active detection holds its id in its reference list, else 0.
\<close>

definition specMean :: "rat list \<Rightarrow> rat" where
  "specMean xs = (if xs = [] then 0 else sum_list xs / of_nat (length xs))"

definition specCoverageValue :: "detection list \<Rightarrow> technique \<Rightarrow> rat" where
  "specCoverageValue detections tech =
     (if list_ex (\<lambda>det. isActive det \<and> list_ex (\<lambda>r. JStr r = id_tech tech) (techniqueRefs det)) detections
      then 1 else 0)"

section \<open>Strings\<close>

text \<open>
  A string is a list of characters, a character standing for a UTF-16 code unit below
  256; text with other code units is not covered. In this range the white space that
  \<^verbatim>\<open>trim\<close> strips and \<^verbatim>\<open>parseFloat\<close> skips is tab, line feed, vertical tab, form feed,
  carriage return, space and no-break space (the other white space of the language,
  U+1680, U+2000 to U+200A, U+2028, U+2029, U+202F, U+205F, U+3000 and U+FEFF, lies
  beyond it).
\<close>

definition isWhiteSpace :: "char \<Rightarrow> bool" where
  "isWhiteSpace c =
     (c \<in> set [CHR 0x09, CHR 0x0A, CHR 0x0B, CHR 0x0C, CHR 0x0D, CHR 0x20, CHR 0xA0])"

definition trim :: "string \<Rightarrow> string" where
  "trim s = rev (dropWhile isWhiteSpace (rev (dropWhile isWhiteSpace s)))"

definition isDigit :: "char \<Rightarrow> bool" where
  "isDigit c = ((48::nat) \<le> of_char c \<and> of_char c \<le> (57::nat))"

definition isLetter :: "char \<Rightarrow> bool" where
  "isLetter c = (((65::nat) \<le> of_char c \<and> of_char c \<le> (90::nat)) \<or>
                 ((97::nat) \<le> of_char c \<and> of_char c \<le> (122::nat)))"

text \<open>\<^verbatim>\<open>s.split(c)\<close>: never empty; the pieces between the occurrences of \<open>c\<close>.\<close>

fun splitOn :: "char \<Rightarrow> string \<Rightarrow> string list" where
  "splitOn c [] = [[]]"
| "splitOn c (x # xs) =
     (if x = c then [] # splitOn c xs
      else (case splitOn c xs of [] \<Rightarrow> [[x]] | p # ps \<Rightarrow> (x # p) # ps))"

text \<open>The value of a run of decimal digits.\<close>

definition digitsValue :: "string \<Rightarrow> nat" where
  "digitsValue ds = foldl (\<lambda>acc c. 10 * acc + (of_char c - 48)) 0 ds"

text \<open>
  \<^verbatim>\<open>parseFloat\<close> on a string: leading white space is skipped, then the longest prefix
  that is a decimal literal is read (sign, \<^verbatim>\<open>Infinity\<close> or digits with an optional
  fraction and exponent); with no such prefix the result is \<^verbatim>\<open>NaN\<close>. The value read is
  rounded to the nearest double.
\<close>

definition exponentOf :: "string \<Rightarrow> int" where
  "exponentOf r =
     (if r \<noteq> [] \<and> (hd r = CHR ''e'' \<or> hd r = CHR ''E'')
      then (let r1 = tl r;
                neg = (r1 \<noteq> [] \<and> hd r1 = CHR ''-'');
                r2 = (if r1 \<noteq> [] \<and> (hd r1 = CHR ''-'' \<or> hd r1 = CHR ''+'') then tl r1 else r1);
                ds = takeWhile isDigit r2
            in if ds = [] then 0
               else if neg then - int (digitsValue ds) else int (digitsValue ds))
      else 0)"

definition parseFloat :: "string \<Rightarrow> jsnum" where
  "parseFloat s =
     (let t = dropWhile isWhiteSpace s;
          neg = (t \<noteq> [] \<and> hd t = CHR ''-'');
          u = (if t \<noteq> [] \<and> (hd t = CHR ''-'' \<or> hd t = CHR ''+'') then tl t else t)
      in if take 8 u = ''Infinity'' then (if neg then NInf else PInf)
         else
           (let ip = takeWhile isDigit u;
                r1 = dropWhile isDigit u;
                hasDot = (r1 \<noteq> [] \<and> hd r1 = CHR ''.'');
                fp = (if hasDot then takeWhile isDigit (tl r1) else []);
                r2 = (if hasDot then dropWhile isDigit (tl r1) else r1)
            in if ip = [] \<and> fp = [] then NaN
               else toDouble ((if neg then - 1 else 1)
                              * (of_nat (digitsValue (ip @ fp)) / 10 ^ length fp)
                              * (10 powi exponentOf r2))))"

section \<open>Array methods with a callback that may raise\<close>

text \<open>
  \<^verbatim>\<open>find\<close> stops at the first match; \<^verbatim>\<open>filter\<close> and \<^verbatim>\<open>map\<close> visit every element.
  An exception in the callback ends the call.
\<close>

fun findE :: "(jsval \<Rightarrow> error + bool) \<Rightarrow> jsval list \<Rightarrow> error + jsval" where
  "findE p [] = Inr JUndefined"
| "findE p (x # xs) = bindE (p x) (\<lambda>b. if b then Inr x else findE p xs)"

fun filterE :: "('a \<Rightarrow> error + bool) \<Rightarrow> 'a list \<Rightarrow> error + 'a list" where
  "filterE p [] = Inr []"
| "filterE p (x # xs) =
     bindE (p x) (\<lambda>b. bindE (filterE p xs) (\<lambda>r. Inr (if b then x # r else r)))"

fun mapE :: "('a \<Rightarrow> error + 'b) \<Rightarrow> 'a list \<Rightarrow> error + 'b list" where
  "mapE f [] = Inr []"
| "mapE f (x # xs) = bindE (f x) (\<lambda>y. bindE (mapE f xs) (\<lambda>r. Inr (y # r)))"

text \<open>
  \<^verbatim>\<open>Array.prototype.sort(compare)\<close>. The language fixes the result only for a consistent
  comparator: the stable ordering by it; and an exception of the comparator ends the
  sort. Which pairs an engine passes to the comparator, and in which order, is left to
  the engine. The model is the stable insertion sort that passes the element of the
  earlier position first: an element moves behind the elements that the comparator puts
  strictly before it (a result greater than 0; \<^verbatim>\<open>NaN\<close> counts as 0). For a consistent
  comparator that does not raise, every stable sort returns this list. With a comparator
  that raises on some pairs only, or an inconsistent one, this is the behaviour of one
  admissible engine: V8, for one, passes the later element first, and so may raise, or
  order, differently on such input.
\<close>

fun jsPositive :: "jsnum \<Rightarrow> bool" where
  "jsPositive PInf = True"
| "jsPositive (Fin x) = (0 < x)"
| "jsPositive n = False"

fun insertE :: "('a \<Rightarrow> 'a \<Rightarrow> error + jsnum) \<Rightarrow> 'a \<Rightarrow> 'a list \<Rightarrow> error + 'a list" where
  "insertE cmp x [] = Inr [x]"
| "insertE cmp x (y # ys) =
     bindE (cmp x y) (\<lambda>c.
       if jsPositive c then bindE (insertE cmp x ys) (\<lambda>r. Inr (y # r))
       else Inr (x # y # ys))"

fun sortE :: "('a \<Rightarrow> 'a \<Rightarrow> error + jsnum) \<Rightarrow> 'a list \<Rightarrow> error + 'a list" where
  "sortE cmp [] = Inr []"
| "sortE cmp (x # xs) = bindE (sortE cmp xs) (insertE cmp x)"

section \<open>The corpus normalizer: processAttackData\<close>

text \<open>What the browser supplies: collation, date formatting, conversion to text.\<close>

record host =
  localeCompare :: "string \<Rightarrow> jsval \<Rightarrow> jsnum"
  formatDate :: "jsval \<Rightarrow> string"
  toText :: "jsval \<Rightarrow> string"

text \<open>The callbacks of the three \<^verbatim>\<open>filter\<close> calls and of the two \<^verbatim>\<open>find\<close> calls.\<close>

definition isTactic :: "jsval \<Rightarrow> error + bool" where
  "isTactic obj = bindE (getProp obj ''type'') (\<lambda>t. Inr (t = JStr ''x-mitre-tactic''))"

definition isAttackPattern :: "jsval \<Rightarrow> error + bool" where
  "isAttackPattern obj =
     bindE (getProp obj ''type'') (\<lambda>t.
       if t \<noteq> JStr ''attack-pattern'' then Inr False
       else bindE (getProp obj ''revoked'') (\<lambda>r.
         if truthy r then Inr False
         else bindE (getProp obj ''deprecated'') (\<lambda>d. Inr (\<not> truthy d))))"

definition isMitreIdentity :: "jsval \<Rightarrow> error + bool" where
  "isMitreIdentity obj =
     bindE (getProp obj ''type'') (\<lambda>t.
       if t \<noteq> JStr ''identity'' then Inr False
       else bindE (getProp obj ''name'') (\<lambda>n. Inr (n = JStr ''The MITRE Corporation'')))"

definition isMitreRef :: "jsval \<Rightarrow> error + bool" where
  "isMitreRef ref = bindE (getProp ref ''source_name'') (\<lambda>s. Inr (s = JStr ''mitre-attack''))"

definition isMitrePhase :: "jsval \<Rightarrow> error + bool" where
  "isMitrePhase phase =
     bindE (getProp phase ''kill_chain_name'') (\<lambda>s. Inr (s = JStr ''mitre-attack''))"

text \<open>
  \<^verbatim>\<open>techniqueId.includes('.')\<close>: a string and an array have the method, any other value
  raises. \<^verbatim>\<open>techniqueId.split('.')[0]\<close> and \<^verbatim>\<open>id.substring(1)\<close>: only a string has them.
\<close>

fun includesDot :: "jsval \<Rightarrow> error + bool" where
  "includesDot (JStr s) = Inr (CHR ''.'' \<in> set s)"
| "includesDot (JArr xs) = Inr (includesVal xs (JStr ''.''))"
| "includesDot v = Inl TypeError"

fun splitDot :: "jsval \<Rightarrow> error + string list" where
  "splitDot (JStr s) = Inr (splitOn CHR ''.'' s)"
| "splitDot v = Inl TypeError"

fun substring1 :: "jsval \<Rightarrow> error + string" where
  "substring1 (JStr s) = Inr (drop 1 s)"
| "substring1 v = Inl TypeError"

definition toTactic :: "jsval \<Rightarrow> error + mitreTactic" where
  "toTactic obj =
     bindE (getProp obj ''id'') (\<lambda>i.
     bindE (getProp obj ''name'') (\<lambda>n.
     bindE (getProp obj ''x_mitre_shortname'') (\<lambda>sn.
     bindE (getProp obj ''description'') (\<lambda>d.
       Inr \<lparr>id_tac = i, name_tac = n, shortName = sn, description_tac = d\<rparr>))))"

text \<open>\<^verbatim>\<open>(a, b) => a.name.localeCompare(b.name)\<close>: only a string has \<^verbatim>\<open>localeCompare\<close>.\<close>

definition compareTactics :: "host \<Rightarrow> mitreTactic \<Rightarrow> mitreTactic \<Rightarrow> error + jsnum" where
  "compareTactics h a b =
     (case name_tac a of
        JStr s \<Rightarrow> Inr (localeCompare h s (name_tac b))
      | _ \<Rightarrow> Inl TypeError)"

definition toTechnique :: "jsval \<Rightarrow> error + technique" where
  "toTechnique tech =
     bindE (getProp tech ''external_references'') (\<lambda>er.
     bindE (asArray (if truthy er then er else JArr [])) (\<lambda>externalRefs.
     bindE (findE isMitreRef externalRefs) (\<lambda>mitreRef.
     bindE (if truthy mitreRef then getProp mitreRef ''external_id'' else Inr (JStr [])) (\<lambda>techniqueId.
     bindE (includesDot techniqueId) (\<lambda>isSub.
     bindE (if isSub then bindE (splitDot techniqueId) (\<lambda>ps. Inr (JStr (hd ps))) else Inr JNull) (\<lambda>parent.
     bindE (getProp tech ''kill_chain_phases'') (\<lambda>kcp.
     bindE (asArray (if truthy kcp then kcp else JArr [])) (\<lambda>killChainPhases.
     bindE (filterE isMitrePhase killChainPhases) (\<lambda>phases.
     bindE (mapE (\<lambda>phase. getProp phase ''phase_name'') phases) (\<lambda>techniqueTactics.
     bindE (getProp tech ''id'') (\<lambda>sid.
     bindE (getProp tech ''name'') (\<lambda>n.
     bindE (getProp tech ''description'') (\<lambda>d.
     bindE (getProp tech ''x_mitre_platforms'') (\<lambda>pl.
     bindE (if truthy mitreRef then getProp mitreRef ''url'' else Inr (JStr [])) (\<lambda>u.
       Inr \<lparr>id_tech = techniqueId, stixId = sid, name_tech = n, description_tech = d,
            isSubTechnique = isSub, parentId = parent, tactics_tech = techniqueTactics,
            platforms = (if truthy pl then pl else JArr []), url = u\<rparr>)))))))))))))))"

text \<open>
  The comparator of the technique sort. \<^verbatim>\<open>id.split('.')[1]\<close> is read only when the id
  holds a dot, so the piece exists; a missing piece would parse to \<^verbatim>\<open>NaN\<close>.
\<close>

definition mainNumber :: "jsval \<Rightarrow> error + jsnum" where
  "mainNumber v = bindE (substring1 v) (\<lambda>s. Inr (parseFloat (hd (splitOn CHR ''.'' s))))"

definition subNumber :: "jsval \<Rightarrow> error + jsnum" where
  "subNumber v =
     bindE (includesDot v) (\<lambda>dotted.
       if dotted
       then bindE (splitDot v) (\<lambda>ps. Inr (case ps of _ # p # _ \<Rightarrow> parseFloat p | _ \<Rightarrow> NaN))
       else Inr (Fin 0))"

definition compareTechniques :: "technique \<Rightarrow> technique \<Rightarrow> error + jsnum" where
  "compareTechniques a b =
     bindE (mainNumber (id_tech a)) (\<lambda>aNum.
     bindE (mainNumber (id_tech b)) (\<lambda>bNum.
       if jsStrictNeq aNum bNum then Inr (jsSub aNum bNum)
       else bindE (subNumber (id_tech a)) (\<lambda>aSubNum.
            bindE (subNumber (id_tech b)) (\<lambda>bSubNum.
              Inr (jsSub aSubNum bSubNum)))))"

text \<open>The technique pipeline: \<^verbatim>\<open>filter\<close>, \<^verbatim>\<open>map\<close>, \<^verbatim>\<open>filter(tech => tech.id)\<close>, \<^verbatim>\<open>sort\<close>.\<close>

definition extractTechniques :: "jsval list \<Rightarrow> error + technique list" where
  "extractTechniques objects =
     bindE (filterE isAttackPattern objects) (\<lambda>patterns.
     bindE (mapE toTechnique patterns) (\<lambda>techs.
       Inr (filter (\<lambda>tech. truthy (id_tech tech)) techs)))"

definition sortTechniques :: "technique list \<Rightarrow> error + technique list" where
  "sortTechniques techs = sortE compareTechniques techs"

definition extractTactics :: "host \<Rightarrow> jsval list \<Rightarrow> error + mitreTactic list" where
  "extractTactics h objects =
     bindE (filterE isTactic objects) (\<lambda>tacs.
     bindE (mapE toTactic tacs) (\<lambda>ts.
       sortE (compareTactics h) ts))"

text \<open>
  The version label of \<^verbatim>\<open>app.js\<close>. (The second copy of the file builds the label from
  more fields; the rest of its \<^verbatim>\<open>processAttackData\<close> is the same text.)
\<close>

definition versionLabel :: "host \<Rightarrow> jsval \<Rightarrow> jsval list \<Rightarrow> string \<Rightarrow> error + string" where
  "versionLabel h attack objects old =
     bindE (findE isMitreIdentity objects) (\<lambda>identityObj.
     bindE (if truthy identityObj then getProp identityObj ''created'' else Inr JUndefined) (\<lambda>created.
     bindE (getProp attack ''spec_version'') (\<lambda>spec.
       let v1 = (if truthy identityObj \<and> truthy created
                 then ''MITRE ATT&CK (Updated: '' @ formatDate h created @ '')''
                 else old)
       in Inr (if truthy spec then v1 @ '' | STIX '' @ toText h spec else v1))))"

text \<open>
  The application object, as far as the engine and the store use it. A call that raises
  is modelled by its exception alone: the fields it had assigned before are not given.
\<close>

record app =
  attackData :: jsval
  mitreVersion :: string
  techniques :: "technique list"
  tactics :: "mitreTactic list"
  detections :: "detection list"
  editingDetectionId :: "string option"
  localStorage :: "detection list option"

text \<open>The object the constructor sets up.\<close>

definition initialApp :: app where
  "initialApp = \<lparr>attackData = JNull, mitreVersion = ''Loading...'', techniques = [],
                 tactics = [], detections = [], editingDetectionId = None,
                 localStorage = None\<rparr>"

definition processAttackData :: "host \<Rightarrow> app \<Rightarrow> error + app" where
  "processAttackData h st =
     (if \<not> truthy (attackData st) then Inr st
      else bindE (getProp (attackData st) ''objects'') (\<lambda>objs.
        if \<not> truthy objs then Inr st
        else bindE (asArray objs) (\<lambda>objects.
             bindE (versionLabel h (attackData st) objects (mitreVersion st)) (\<lambda>label.
             bindE (extractTactics h objects) (\<lambda>tacs.
             bindE (extractTechniques objects) (\<lambda>techs.
             bindE (sortTechniques techs) (\<lambda>sorted.
               Inr (st\<lparr>mitreVersion := label, tactics := tacs, techniques := sorted\<rparr>))))))))"

text \<open>An object counts as flagged when \<^verbatim>\<open>revoked\<close> or \<^verbatim>\<open>deprecated\<close> is set on it.\<close>

definition flagged :: "jsval \<Rightarrow> bool" where
  "flagged obj =
     (case obj of
        JObj ps \<Rightarrow>
          truthy (case map_of ps ''revoked'' of None \<Rightarrow> JUndefined | Some v \<Rightarrow> v) \<or>
          truthy (case map_of ps ''deprecated'' of None \<Rightarrow> JUndefined | Some v \<Rightarrow> v)
      | _ \<Rightarrow> False)"

text \<open>
  From the specification's words, for comparison with the comparator: the sort keys of
  an identifier made of a letter, a number and optionally a dot and a second number,
  namely the value of the leading number, and the value of the suffix, 0 without one.
\<close>

definition specLeadingNumber :: "string \<Rightarrow> nat" where
  "specLeadingNumber s = digitsValue (takeWhile (\<lambda>c. c \<noteq> CHR ''.'') (drop 1 s))"

definition specSuffixNumber :: "string \<Rightarrow> nat" where
  "specSuffixNumber s =
     (if CHR ''.'' \<in> set s
      then digitsValue (takeWhile (\<lambda>c. c \<noteq> CHR ''.'') (drop 1 (dropWhile (\<lambda>c. c \<noteq> CHR ''.'') s)))
      else 0)"

definition specSortKey :: "technique \<Rightarrow> nat \<times> nat" where
  "specSortKey tech = (case id_tech tech of JStr s \<Rightarrow> (specLeadingNumber s, specSuffixNumber s) | _ \<Rightarrow> (0, 0))"

text \<open>
  Identifiers of that form, each number of at most 15 digits, so that its value is a
  double without rounding.
\<close>

definition digitsOk :: "string \<Rightarrow> bool" where
  "digitsOk ds = (ds \<noteq> [] \<and> list_all isDigit ds \<and> length ds \<le> 15)"

definition wellFormedIdString :: "string \<Rightarrow> bool" where
  "wellFormedIdString s =
     (case s of
        [] \<Rightarrow> False
      | c # rest \<Rightarrow>
          isLetter c \<and>
          (case splitOn CHR ''.'' rest of
             [ds] \<Rightarrow> digitsOk ds
           | [ds, ds2] \<Rightarrow> digitsOk ds \<and> digitsOk ds2
           | _ \<Rightarrow> False))"

definition wellFormedId :: "technique \<Rightarrow> bool" where
  "wellFormedId tech = (case id_tech tech of JStr s \<Rightarrow> wellFormedIdString s | _ \<Rightarrow> False)"

section \<open>The detection store\<close>

text \<open>The fields of the detection form, as \<^verbatim>\<open>saveDetection\<close> reads them from the page.\<close>

record form =
  detectionName :: string
  detectionDescription :: string
  detectionPlatform :: string
  detectionSeverity :: string
  detectionActive :: bool
  technique1_input :: string
  technique2_input :: string
  technique3_input :: string

text \<open>
  What the platform supplies to a call: the readings of clock and random generator, that
  is the text of \<^verbatim>\<open>Date.now()\<close>, of \<^verbatim>\<open>Math.random().toString(36).substr(2, 9)\<close> and of
  \<^verbatim>\<open>new Date().toISOString()\<close>; and \<^verbatim>\<open>String.prototype.toUpperCase\<close>, whose table of
  letters is the platform's.
\<close>

record environment =
  dateNow :: string
  randomSuffix :: string
  isoString :: string
  toUpperCase :: "string \<Rightarrow> string"

definition generateId :: "environment \<Rightarrow> string" where
  "generateId env = ''det_'' @ dateNow env @ ''_'' @ randomSuffix env"

fun findIndex :: "('a \<Rightarrow> bool) \<Rightarrow> 'a list \<Rightarrow> nat option" where
  "findIndex p [] = None"
| "findIndex p (x # xs) =
     (if p x then Some 0 else map_option Suc (findIndex p xs))"

text \<open>\<^verbatim>\<open>this.editingDetectionId\<close> is \<^verbatim>\<open>null\<close> or a string; the empty string is falsy too.\<close>

definition editing :: "app \<Rightarrow> bool" where
  "editing st = (case editingDetectionId st of None \<Rightarrow> False | Some i \<Rightarrow> i \<noteq> [])"

text \<open>
  \<^verbatim>\<open>saveDetection\<close>. The result is the alert shown, if any, and the application object
  after the call: \<^verbatim>\<open>saveUserData\<close> has written the collection to the local storage and
  \<^verbatim>\<open>closeDetectionModal\<close> has cleared \<^verbatim>\<open>editingDetectionId\<close>. Drawing the page is left out.
\<close>

definition saveDetection :: "environment \<Rightarrow> form \<Rightarrow> app \<Rightarrow> string option \<times> app" where
  "saveDetection env f st =
     (let name = trim (detectionName f);
          description = trim (detectionDescription f);
          t1 = toUpperCase env (trim (technique1_input f));
          t2 = toUpperCase env (trim (technique2_input f));
          t3 = toUpperCase env (trim (technique3_input f))
      in if name = [] then (Some ''Please enter a detection name'', st)
         else
           (let detection =
                  \<lparr>id_det = (if editing st then the (editingDetectionId st) else generateId env),
                   name_det = name, description_det = description,
                   platform = detectionPlatform f, severity = detectionSeverity f,
                   isActive = detectionActive f,
                   technique1 = t1, technique2 = t2, technique3 = t3,
                   updatedAt = isoString env, createdAt = None\<rparr>;
                dets =
                  (if editing st
                   then (case findIndex (\<lambda>d. id_det d = the (editingDetectionId st)) (detections st) of
                           None \<Rightarrow> detections st
                         | Some index \<Rightarrow> (detections st)[index := detection])
                   else detections st @ [detection\<lparr>createdAt := Some (updatedAt detection)\<rparr>])
            in (None, st\<lparr>detections := dets, localStorage := Some dets,
                         editingDetectionId := None\<rparr>)))"

text \<open>
  \<^verbatim>\<open>toggleDetectionActive\<close>: the first detection with the id is switched in place and the
  collection is written to the local storage; without such a detection nothing happens.
\<close>

definition toggleDetectionActive :: "string \<Rightarrow> app \<Rightarrow> app" where
  "toggleDetectionActive detectionId st =
     (case findIndex (\<lambda>d. id_det d = detectionId) (detections st) of
        None \<Rightarrow> st
      | Some index \<Rightarrow>
          (let detection = detections st ! index;
               dets = (detections st)[index := detection\<lparr>isActive := \<not> isActive detection\<rparr>]
           in st\<lparr>detections := dets, localStorage := Some dets\<rparr>))"

text \<open>
  \<^verbatim>\<open>importData\<close>, from the moment the file has been read. The assignment
  \<^verbatim>\<open>this.detections = data.detections\<close> stores whatever value the document holds, so the
  collection is a raw value here. \<open>parsed\<close> is the result of \<^verbatim>\<open>JSON.parse\<close>, \<open>None\<close> when
  it raises; \<open>renderRaises\<close> tells whether drawing the page raises on a collection.
\<close>

record importStore =
  detections_raw :: jsval
  localStorage_raw :: "jsval option"

definition importData :: "(jsval \<Rightarrow> bool) \<Rightarrow> jsval option \<Rightarrow> importStore \<Rightarrow> string \<times> importStore" where
  "importData renderRaises parsed st =
     (case parsed of
        None \<Rightarrow> (''Error importing data. Please check the file format.'', st)
      | Some data \<Rightarrow>
          (case getProp data ''detections'' of
             Inl e \<Rightarrow> (''Error importing data. Please check the file format.'', st)
           | Inr d \<Rightarrow>
               (let st1 = (if truthy d then st\<lparr>detections_raw := d\<rparr> else st);
                    st2 = st1\<lparr>localStorage_raw := Some (detections_raw st1)\<rparr>
                in if renderRaises (detections_raw st2)
                   then (''Error importing data. Please check the file format.'', st2)
                   else (''Data imported successfully!'', st2))))"

section \<open>Sample data\<close>

text \<open>Small values for the concrete instances stated below.\<close>

definition sampleHost :: host where
  "sampleHost = \<lparr>localeCompare = (\<lambda>s v. Fin 0), formatDate = (\<lambda>v. []), toText = (\<lambda>v. [])\<rparr>"

definition attackPattern :: "string \<Rightarrow> (string \<times> jsval) list \<Rightarrow> jsval" where
  "attackPattern i extra =
     JObj (extra @
       [(''type'', JStr ''attack-pattern''),
        (''id'', JStr (''attack-pattern--'' @ i)),
        (''name'', JStr (''Technique '' @ i)),
        (''external_references'',
           JArr [JObj [(''source_name'', JStr ''mitre-attack''), (''external_id'', JStr i),
                       (''url'', JStr (''https://attack.mitre.org/techniques/'' @ i))]]),
        (''kill_chain_phases'',
           JArr [JObj [(''kill_chain_name'', JStr ''mitre-attack''),
                       (''phase_name'', JStr ''execution'')]])])"

definition sampleTechnique :: "string \<Rightarrow> technique" where
  "sampleTechnique i =
     \<lparr>id_tech = JStr i, stixId = JStr (''attack-pattern--'' @ i),
      name_tech = JStr (''Technique '' @ i), description_tech = JUndefined,
      isSubTechnique = (CHR ''.'' \<in> set i),
      parentId = (if CHR ''.'' \<in> set i then JStr (takeWhile (\<lambda>c. c \<noteq> CHR ''.'') i) else JNull),
      tactics_tech = [JStr ''execution''], platforms = JArr [],
      url = JStr (''https://attack.mitre.org/techniques/'' @ i)\<rparr>"

definition sampleTactic :: "string \<Rightarrow> mitreTactic" where
  "sampleTactic sn =
     \<lparr>id_tac = JStr (''x-mitre-tactic--'' @ sn), name_tac = JStr sn, shortName = JStr sn,
      description_tac = JUndefined\<rparr>"

definition sampleDetection :: "string \<Rightarrow> bool \<Rightarrow> string \<Rightarrow> string \<Rightarrow> string \<Rightarrow> detection" where
  "sampleDetection i active t1 t2 t3 =
     \<lparr>id_det = i, name_det = ''Rule '' @ i, description_det = [], platform = ''Windows'',
      severity = ''High'', isActive = active,
      technique1 = t1, technique2 = t2, technique3 = t3,
      updatedAt = ''2024-01-01T00:00:00.000Z'',
      createdAt = Some ''2024-01-01T00:00:00.000Z''\<rparr>"

definition sampleForm :: form where
  "sampleForm =
     \<lparr>detectionName = '' Encoded PowerShell '', detectionDescription = ''Base64 command line'',
      detectionPlatform = ''Windows'', detectionSeverity = ''High'', detectionActive = True,
      technique1_input = ''t1059.001'', technique2_input = [], technique3_input = []\<rparr>"

text \<open>The upper-case mapping on text of ASCII characters.\<close>

definition asciiUpperCase :: "string \<Rightarrow> string" where
  "asciiUpperCase s =
     map (\<lambda>c. case map_of (zip ''abcdefghijklmnopqrstuvwxyz'' ''ABCDEFGHIJKLMNOPQRSTUVWXYZ'') c of
                 None \<Rightarrow> c
               | Some u \<Rightarrow> u) s"

definition sampleClock :: environment where
  "sampleClock =
     \<lparr>dateNow = ''1717200000000'', randomSuffix = ''k3j9x0q2z'',
      isoString = ''2024-06-01T00:00:00.000Z'', toUpperCase = asciiUpperCase\<rparr>"

section \<open>Basic facts\<close>

lemma bindE_Inr [simp]: "bindE (Inr x) f = f x"
  by (simp add: bindE_def)

lemma bindE_Inl [simp]: "bindE (Inl e) f = Inl e"
  by (simp add: bindE_def)

lemma bindE_Inr_right [simp]: "bindE m Inr = m"
  by (cases m) simp_all

lemma bindE_eq_Inr: "(bindE m f = Inr y) = (\<exists>x. m = Inr x \<and> f x = Inr y)"
  by (cases m) simp_all

section \<open>Doubles\<close>

text \<open>
  A value \<open>m * 2^k\<close> with \<open>|m| < 2^53\<close>, within the range of the doubles, is a double:
  rounding leaves it as it is. So do in particular the integers below \<open>2^53\<close>.
\<close>

lemma bitLength_bounds:
  "0 < n \<Longrightarrow> 1 \<le> bitLength n \<and> 2 ^ nat (bitLength n - 1) \<le> n \<and> n < 2 ^ nat (bitLength n)"
proof (induction n rule: bitLength.induct)
  case (1 n)
  have bl: "bitLength n = 1 + bitLength (n div 2)"
    using "1.prems" by (subst bitLength.simps) simp
  show ?case
  proof (cases "n div 2 = 0")
    case True
    with "1.prems" have "n = 1" by linarith
    moreover have "bitLength 0 = 0" by (subst bitLength.simps) simp
    ultimately show ?thesis using bl by simp
  next
    case False
    with "1.prems" have pos: "0 < n div 2" by linarith
    from "1.IH" "1.prems" pos
    have ih: "1 \<le> bitLength (n div 2)"
      "2 ^ nat (bitLength (n div 2) - 1) \<le> n div 2"
      "n div 2 < 2 ^ nat (bitLength (n div 2))"
      by simp_all
    let ?b = "bitLength (n div 2)"
    have e1: "nat (1 + ?b - 1) = Suc (nat (?b - 1))" using ih(1) by simp
    have e2: "nat (1 + ?b) = Suc (nat ?b)" using ih(1) by simp
    have e3: "nat ?b = Suc (nat (?b - 1))" using ih(1) by simp
    have p3: "(2::int) ^ nat ?b = 2 * 2 ^ nat (?b - 1)" by (subst e3) simp
    have "2 * (2::int) ^ nat (?b - 1) \<le> n" using ih(2) by linarith
    moreover have "n < 2 * (2::int) ^ nat ?b" using ih(3) by linarith
    ultimately show ?thesis
      using ih(1) p3 by (simp add: bl e1 e2)
  qed
qed

lemma floorLog2_le:
  assumes "0 < a"
  shows "2 powi (floorLog2 a) \<le> a"
proof -
  obtain p q where pq: "quotient_of a = (p, q)" by (cases "quotient_of a")
  then have q: "0 < q" by (rule quotient_of_denom_pos)
  from pq have a: "a = of_int p / of_int q" by (rule quotient_of_div)
  with assms q have p: "0 < p" by (simp add: zero_less_divide_iff)
  let ?e0 = "bitLength p - bitLength q"
  show ?thesis
  proof (cases "2 powi ?e0 \<le> a")
    case True
    then show ?thesis by (simp add: floorLog2_def pq)
  next
    case False
    from bitLength_bounds[OF p] have bp: "1 \<le> bitLength p" "2 ^ nat (bitLength p - 1) \<le> p" by simp_all
    from bitLength_bounds[OF q] have bq: "1 \<le> bitLength q" "q < 2 ^ nat (bitLength q)" by simp_all
    have "(2::rat) powi ((bitLength p - 1) - bitLength q)
        = 2 powi (bitLength p - 1) / 2 powi (bitLength q)"
      by (rule power_int_diff) simp
    moreover have "?e0 - 1 = (bitLength p - 1) - bitLength q" by simp
    ultimately have "(2::rat) powi (?e0 - 1) = 2 powi (bitLength p - 1) / 2 powi (bitLength q)"
      by (simp only:)
    also have "\<dots> = 2 ^ nat (bitLength p - 1) / 2 ^ nat (bitLength q)"
      using bp(1) bq(1) by (simp add: power_int_nonneg_exp)
    also have "\<dots> \<le> of_int p / of_int q"
    proof (rule frac_le)
      show "(2::rat) ^ nat (bitLength p - 1) \<le> of_int p"
        using bp(2) by (metis of_int_le_iff of_int_numeral of_int_power)
      show "(of_int q :: rat) \<le> 2 ^ nat (bitLength q)"
        using bq(2) by (metis less_imp_le of_int_le_iff of_int_numeral of_int_power)
      show "(0::rat) < of_int q" using q by simp
      show "(0::rat) \<le> of_int p" using p by simp
    qed
    also have "\<dots> = a" by (simp add: a)
    finally have "2 powi (?e0 - 1) \<le> a" .
    with False show ?thesis
      by (simp add: floorLog2_def pq)
  qed
qed

lemma roundHalfEven_of_int [simp]: "roundHalfEven (of_int z) = z"
  by (simp add: roundHalfEven_def)

lemma toDouble_exact:
  assumes x: "x = of_int m * 2 powi k"
    and m: "\<bar>m\<bar> < 2 ^ 53"
    and k: "- 1074 \<le> k"
    and big: "\<bar>x\<bar> < 2 powi 1024"
  shows "toDouble x = Fin x"
proof (cases "x = 0")
  case True
  then show ?thesis by (simp add: toDouble_def)
next
  case False
  let ?a = "\<bar>x\<bar>"
  have apos: "0 < ?a" using False by simp
  have a: "?a = of_int \<bar>m\<bar> * 2 powi k"
    by (simp add: x abs_mult power_int_abs)
  have "(of_int \<bar>m\<bar> :: rat) < 2 ^ 53"
    using m by (metis of_int_less_iff of_int_numeral of_int_power)
  then have "?a < 2 ^ 53 * 2 powi k"
    unfolding a by (intro mult_strict_right_mono) simp_all
  also have "\<dots> = 2 powi (53 + k)"
    by (simp add: power_int_add)
  finally have "2 powi (floorLog2 ?a) < (2::rat) powi (53 + k)"
    using floorLog2_le[OF apos] by simp
  then have fl: "floorLog2 ?a < 53 + k"
  proof -
    assume lt: "2 powi (floorLog2 ?a) < (2::rat) powi (53 + k)"
    show ?thesis
    proof (rule ccontr)
      assume "\<not> floorLog2 ?a < 53 + k"
      then have "53 + k \<le> floorLog2 ?a" by simp
      then have "(2::rat) powi (53 + k) \<le> 2 powi (floorLog2 ?a)"
        by (rule power_int_increasing) simp
      with lt show False by simp
    qed
  qed
  define e where "e = max (floorLog2 ?a) (- 1022)"
  have e: "e - 52 \<le> k" using fl k by (simp add: e_def)
  define j where "j = nat (k - (e - 52))"
  have kj: "k = (e - 52) + int j" using e by (simp add: j_def)
  have "?a / 2 powi (e - 52) = of_int \<bar>m\<bar> * 2 powi (int j)"
    unfolding a by (subst kj) (simp add: power_int_add)
  also have "\<dots> = of_int (\<bar>m\<bar> * 2 ^ j)"
    by simp
  finally have q: "?a / 2 powi (e - 52) = of_int (\<bar>m\<bar> * 2 ^ j)" .
  have r: "of_int (roundHalfEven (?a / 2 powi (e - 52))) * 2 powi (e - 52) = ?a"
    unfolding q roundHalfEven_of_int
    unfolding q[symmetric] by simp
  have sgn: "(if 0 < x then ?a else - ?a) = x"
    by simp
  have nb: "\<not> 2 powi 1024 \<le> ?a"
    using big by (simp only: not_le)
  have "toDouble x =
      (if (2::rat) powi 1024 \<le> of_int (roundHalfEven (?a / 2 powi (e - 52))) * 2 powi (e - 52)
       then (if 0 < x then PInf else NInf)
       else Fin (if 0 < x then of_int (roundHalfEven (?a / 2 powi (e - 52))) * 2 powi (e - 52)
                 else - (of_int (roundHalfEven (?a / 2 powi (e - 52))) * 2 powi (e - 52))))"
    by (simp only: toDouble_def Let_def False if_False e_def)
  also have "\<dots> = Fin (if 0 < x then ?a else - ?a)"
    by (simp only: r nb if_False)
  finally show ?thesis
    by (simp only: sgn)
qed

lemma toDouble_of_int: "\<bar>i\<bar> < 2 ^ 53 \<Longrightarrow> toDouble (of_int i) = Fin (of_int i)"
proof -
  assume i: "\<bar>i\<bar> < 2 ^ 53"
  have "(of_int \<bar>i\<bar> :: rat) < 2 ^ 53"
    using i by (metis of_int_less_iff of_int_numeral of_int_power)
  also have "\<dots> < 2 powi 1024" by simp
  finally have "\<bar>of_int i :: rat\<bar> < 2 powi 1024" by simp
  then show ?thesis
    using toDouble_exact[of "of_int i" i 0] i by simp
qed

lemma toDouble_half: "toDouble (1 / 2) = Fin (1 / 2)"
  using toDouble_exact[of "1/2" 1 "-1"] by (simp add: power_int_minus_divide)

lemma toDouble_of_nat: "n < 2 ^ 53 \<Longrightarrow> toDouble (of_nat n) = Fin (of_nat n)"
  using toDouble_of_int[of "int n"] by simp

text \<open>The point where exact arithmetic and doubles part: 7 of 25, in percent.\<close>

lemma seven_of_25_percent:
  "jsMul (jsDiv (Fin 7) (Fin 25)) (Fin 100) = Fin (28 + 1 / 2 ^ 48)"
  by code_simp

section \<open>The coverage engine\<close>

lemma matchesTechnique_refs:
  "matchesTechnique tid d = (isActive d \<and> tid \<in> JStr ` set (techniqueRefs d))"
  by (auto simp: matchesTechnique_def techniqueRefs_def)

lemma status_detected_iff_count:
  "(getTechniqueStatus dets t = ''detected'') = (0 < getDetectionRulesForTechnique dets (id_tech t))"
  by (simp add: getTechniqueStatus_def Let_def)

lemma count_pos_iff:
  "(0 < getDetectionRulesForTechnique dets tid) = (\<exists>d\<in>set dets. matchesTechnique tid d)"
  by (auto simp: getDetectionRulesForTechnique_def filter_empty_conv)

lemma count_active_only:
  "getDetectionRulesForTechnique (filter isActive dets) tid = getDetectionRulesForTechnique dets tid"
proof -
  have "filter (matchesTechnique tid) (filter isActive dets) = filter (matchesTechnique tid) dets"
    by (induction dets) (auto simp: matchesTechnique_def)
  then show ?thesis
    by (simp add: getDetectionRulesForTechnique_def)
qed

lemma count_inactive_zero:
  "getDetectionRulesForTechnique (filter (\<lambda>d. \<not> isActive d) dets) tid = 0"
proof -
  have "filter (matchesTechnique tid) (filter (\<lambda>d. \<not> isActive d) dets) = []"
    by (induction dets) (auto simp: matchesTechnique_def)
  then show ?thesis
    by (simp add: getDetectionRulesForTechnique_def)
qed

text \<open>
  C1. A technique's status is \<^verbatim>\<open>'detected'\<close> exactly when some detection is active and
  holds the technique's id in one of its reference slots; the count returned by
  \<^verbatim>\<open>getDetectionRulesForTechnique\<close> is the number of such detections; inactive detections
  change neither: count and status over the active detections alone are the same, and
  the count over the inactive ones is 0.
\<close>

theorem status_detected_iff_active_reference:
  "((getTechniqueStatus dets tech = ''detected'') =
      (\<exists>det\<in>set dets. isActive det \<and> id_tech tech \<in> JStr ` set (techniqueRefs det))) \<and>
   getDetectionRulesForTechnique dets techniqueId =
      length (filter (\<lambda>det. isActive det \<and> techniqueId \<in> JStr ` set (techniqueRefs det)) dets) \<and>
   getDetectionRulesForTechnique dets techniqueId =
      getDetectionRulesForTechnique (filter isActive dets) techniqueId \<and>
   getDetectionRulesForTechnique (filter (\<lambda>det. \<not> isActive det) dets) techniqueId = 0 \<and>
   getTechniqueStatus (filter isActive dets) tech = getTechniqueStatus dets tech"
proof -
  have eq: "matchesTechnique techniqueId =
      (\<lambda>det. isActive det \<and> techniqueId \<in> JStr ` set (techniqueRefs det))"
    by (rule ext) (rule matchesTechnique_refs)
  have "(getTechniqueStatus dets tech = ''detected'') =
      (\<exists>det\<in>set dets. isActive det \<and> id_tech tech \<in> JStr ` set (techniqueRefs det))"
    by (simp add: status_detected_iff_count count_pos_iff matchesTechnique_refs)
  moreover have "getDetectionRulesForTechnique dets techniqueId =
      length (filter (\<lambda>det. isActive det \<and> techniqueId \<in> JStr ` set (techniqueRefs det)) dets)"
    by (simp add: getDetectionRulesForTechnique_def eq)
  moreover have "getTechniqueStatus (filter isActive dets) tech = getTechniqueStatus dets tech"
    by (simp add: getTechniqueStatus_def count_active_only)
  ultimately show ?thesis
    by (simp add: count_active_only count_inactive_zero)
qed

theorem status_detected_iff_active_reference_witness:
  "getTechniqueStatus
     [sampleDetection ''det_1'' True ''T1059'' [] [], sampleDetection ''det_2'' False ''T1060'' [] []]
     (sampleTechnique ''T1059'') = ''detected'' \<and>
   getTechniqueStatus
     [sampleDetection ''det_1'' True ''T1059'' [] [], sampleDetection ''det_2'' False ''T1060'' [] []]
     (sampleTechnique ''T1060'') \<noteq> ''detected'' \<and>
   getDetectionRulesForTechnique
     [sampleDetection ''det_1'' True ''T1059'' [] [], sampleDetection ''det_2'' False ''T1060'' [] []]
     (JStr ''T1059'') = 1"
  using status_detected_iff_active_reference
          [of "[sampleDetection ''det_1'' True ''T1059'' [] [],
                sampleDetection ''det_2'' False ''T1060'' [] []]"
              "sampleTechnique ''T1059''" "JStr ''T1059''"]
        status_detected_iff_active_reference
          [of "[sampleDetection ''det_1'' True ''T1059'' [] [],
                sampleDetection ''det_2'' False ''T1060'' [] []]"
              "sampleTechnique ''T1060''" "JStr ''T1060''"]
  by (simp add: sampleDetection_def sampleTechnique_def techniqueRefs_def)

lemma calculateCoverage_value: "calculateCoverage dets t = Fin (specCoverageValue dets t)"
proof -
  have "(getTechniqueStatus dets t = ''detected'') =
     list_ex (\<lambda>det. isActive det \<and> list_ex (\<lambda>r. JStr r = id_tech t) (techniqueRefs det)) dets"
    unfolding status_detected_iff_count count_pos_iff matchesTechnique_refs list_ex_iff
    by (rule bex_cong) (force simp: image_iff)+
  then show ?thesis
    by (simp add: calculateCoverage_def Let_def specCoverageValue_def)
qed

lemma specCoverageValue_cases:
  "specCoverageValue dets t = 0 \<or> specCoverageValue dets t = 1"
  by (simp add: specCoverageValue_def)

text \<open>The loop adds 1 or 0 to a count below \<open>2^53\<close>: every sum is exact.\<close>

lemma totalCoverage_acc:
  "a + length ts < 2 ^ 53 \<Longrightarrow>
     foldl (\<lambda>acc tech. jsAdd acc (calculateCoverage dets tech)) (Fin (of_nat a)) ts
       = Fin (of_nat a + sum_list (map (specCoverageValue dets) ts))"
proof (induction ts arbitrary: a)
  case Nil
  show ?case by simp
next
  case (Cons t ts)
  from specCoverageValue_cases[of dets t] show ?case
  proof
    assume z: "specCoverageValue dets t = 0"
    have "a < 2 ^ 53" using Cons.prems by simp
    then have "jsAdd (Fin (of_nat a)) (calculateCoverage dets t) = Fin (of_nat a)"
      by (simp add: calculateCoverage_value z toDouble_of_nat)
    moreover have "a + length ts < 2 ^ 53" using Cons.prems by simp
    ultimately show ?thesis
      using Cons.IH[of a] by (simp add: z)
  next
    assume o: "specCoverageValue dets t = 1"
    have "Suc a < 2 ^ 53" using Cons.prems by simp
    then have "toDouble (of_nat (Suc a)) = Fin (of_nat (Suc a))"
      by (rule toDouble_of_nat)
    then have "jsAdd (Fin (of_nat a)) (calculateCoverage dets t) = Fin (of_nat (Suc a))"
      by (simp add: calculateCoverage_value o add.commute)
    moreover have "Suc a + length ts < 2 ^ 53" using Cons.prems by simp
    ultimately show ?thesis
      using Cons.IH[of "Suc a"] by (simp add: o add.assoc add.commute)
  qed
qed

lemma totalCoverage_sum:
  "length ts < 2 ^ 53 \<Longrightarrow>
     totalCoverage dets ts = Fin (sum_list (map (specCoverageValue dets) ts))"
  using totalCoverage_acc[of 0 ts dets] by (simp add: totalCoverage_def)

text \<open>
  C2. With no technique loaded the overall coverage figure is \<^verbatim>\<open>0 / 0\<close> times 100, that is
  \<^verbatim>\<open>NaN\<close>, where the specification asks for 0. (The figure is a percentage: with at least
  one technique it is the mean, rounded to a double, times 100, see
  \<open>overallCoverage_nonempty\<close>.)
\<close>

theorem overallCoverage_empty_corpus_NaN:
  "overallCoveragePercent dets [] = NaN"
  by (simp add: overallCoveragePercent_def totalCoverage_def)

lemma overallCoverage_nonempty:
  "ts \<noteq> [] \<Longrightarrow> length ts < 2 ^ 53 \<Longrightarrow>
     overallCoveragePercent dets ts
       = jsMul (toDouble (specMean (map (specCoverageValue dets) ts))) (Fin 100)"
  by (simp add: overallCoveragePercent_def totalCoverage_sum specMean_def)

lemma specCoverageValue_T1:
  "specCoverageValue [sampleDetection ''det_1'' True ''T1'' [] []] (sampleTechnique ''T1'') = 1"
  by (simp add: specCoverageValue_def sampleDetection_def sampleTechnique_def techniqueRefs_def)

lemma specCoverageValue_T2:
  "specCoverageValue [sampleDetection ''det_1'' True ''T1'' [] []] (sampleTechnique ''T2'') = 0"
  by (simp add: specCoverageValue_def sampleDetection_def sampleTechnique_def techniqueRefs_def)

lemma sample_in_execution:
  "includesVal (tactics_tech (sampleTechnique i)) (shortName (sampleTactic ''execution''))"
  by (simp add: includesVal_def sampleTechnique_def sampleTactic_def)

lemma sample_not_in_impact:
  "\<not> includesVal (tactics_tech (sampleTechnique i)) (shortName (sampleTactic ''impact''))"
  by (simp add: includesVal_def sampleTechnique_def sampleTactic_def)

lemma toDouble_50: "toDouble 50 = Fin 50"
  using toDouble_of_int[of 50] by simp

lemma scenario_coverage:
  "coverage (tacticCoverage [sampleDetection ''det_1'' True ''T1'' [] []]
     [sampleTechnique ''T1'', sampleTechnique ''T2''] (sampleTactic ''execution'')) = Fin 50"
proof -
  have "totalCoverage [sampleDetection ''det_1'' True ''T1'' [] []]
      [sampleTechnique ''T1'', sampleTechnique ''T2''] = Fin 1"
    by (subst totalCoverage_sum) (simp_all add: specCoverageValue_T1 specCoverageValue_T2)
  then show ?thesis
    by (simp add: tacticCoverage_def Let_def tacticTechniques_def sample_in_execution
        toDouble_half toDouble_50)
qed

text \<open>
  C3, as stated, fails: the coverage of a tactic is kept as a percentage. In the
  scenario of the specification (two techniques of the tactic, one of them detected) the
  mean of the coverage values is 1/2 and the coverage computed is 50.
\<close>

theorem tacticCoverage_scenario_is_50:
  "coverage (tacticCoverage [sampleDetection ''det_1'' True ''T1'' [] []]
     [sampleTechnique ''T1'', sampleTechnique ''T2''] (sampleTactic ''execution'')) = Fin 50 \<and>
   specMean (map (specCoverageValue [sampleDetection ''det_1'' True ''T1'' [] []])
     (filter (\<lambda>tech. includesVal (tactics_tech tech) (shortName (sampleTactic ''execution'')))
        [sampleTechnique ''T1'', sampleTechnique ''T2''])) = 1 / 2"
  by (simp add: scenario_coverage sample_in_execution specCoverageValue_T1 specCoverageValue_T2
      specMean_def)

text \<open>
  C3, amended. The coverage of a tactic is a percentage. The techniques counted are all
  those whose \<^verbatim>\<open>tactics\<close> list holds the tactic's \<^verbatim>\<open>shortName\<close>, parents and
  sub-techniques alike, and their number is the entry's count. When there is none, the
  coverage is 0. Otherwise it is the arithmetic mean of their coverage values (1 for a
  detected technique, 0 otherwise), rounded to a double, times 100 in double arithmetic.
  (The bound on the list is no restriction: an array has fewer than \<open>2^32\<close> elements.)
\<close>

theorem tacticCoverage_is_mean_percent:
  assumes "length techs < 2 ^ 53"
  shows
    "coverage (tacticCoverage dets techs tac) =
       (if filter (\<lambda>tech. includesVal (tactics_tech tech) (shortName tac)) techs = [] then Fin 0
        else jsMul (toDouble (specMean (map (specCoverageValue dets)
                      (filter (\<lambda>tech. includesVal (tactics_tech tech) (shortName tac)) techs))))
                   (Fin 100)) \<and>
     count_entry (tacticCoverage dets techs tac) =
       length (filter (\<lambda>tech. includesVal (tactics_tech tech) (shortName tac)) techs)"
proof -
  let ?sel = "filter (\<lambda>tech. includesVal (tactics_tech tech) (shortName tac)) techs"
  have "length ?sel \<le> length techs"
    by (rule length_filter_le)
  then have "length ?sel < 2 ^ 53"
    using assms by (rule le_less_trans)
  then have "totalCoverage dets ?sel = Fin (sum_list (map (specCoverageValue dets) ?sel))"
    by (rule totalCoverage_sum)
  then show ?thesis
    by (simp add: tacticCoverage_def Let_def tacticTechniques_def specMean_def)
qed

theorem tacticCoverage_is_mean_percent_witness:
  "length [sampleTechnique ''T1'', sampleTechnique ''T2''] < 2 ^ 53 \<and>
   coverage (tacticCoverage [sampleDetection ''det_1'' True ''T1'' [] []]
     [sampleTechnique ''T1'', sampleTechnique ''T2''] (sampleTactic ''impact'')) = Fin 0 \<and>
   coverage (tacticCoverage [sampleDetection ''det_1'' True ''T1'' [] []]
     [sampleTechnique ''T1'', sampleTechnique ''T2''] (sampleTactic ''execution''))
     = jsMul (toDouble (1 / 2)) (Fin 100) \<and>
   jsMul (toDouble (1 / 2)) (Fin 100) = Fin 50 \<and>
   count_entry (tacticCoverage [sampleDetection ''det_1'' True ''T1'' [] []]
     [sampleTechnique ''T1'', sampleTechnique ''T2''] (sampleTactic ''execution'')) = 2"
proof -
  have l: "length [sampleTechnique ''T1'', sampleTechnique ''T2''] < 2 ^ 53"
    by simp
  from tacticCoverage_is_mean_percent[OF l, of "[sampleDetection ''det_1'' True ''T1'' [] []]"
      "sampleTactic ''impact''"]
  have i: "coverage (tacticCoverage [sampleDetection ''det_1'' True ''T1'' [] []]
     [sampleTechnique ''T1'', sampleTechnique ''T2''] (sampleTactic ''impact'')) = Fin 0"
    by (simp add: sample_not_in_impact)
  from tacticCoverage_is_mean_percent[OF l, of "[sampleDetection ''det_1'' True ''T1'' [] []]"
      "sampleTactic ''execution''"]
  have e: "coverage (tacticCoverage [sampleDetection ''det_1'' True ''T1'' [] []]
     [sampleTechnique ''T1'', sampleTechnique ''T2''] (sampleTactic ''execution''))
     = jsMul (toDouble (1 / 2)) (Fin 100)"
    "count_entry (tacticCoverage [sampleDetection ''det_1'' True ''T1'' [] []]
     [sampleTechnique ''T1'', sampleTechnique ''T2''] (sampleTactic ''execution'')) = 2"
    by (simp_all add: sample_in_execution specCoverageValue_T1 specCoverageValue_T2 specMean_def)
  have "jsMul (toDouble (1 / 2)) (Fin 100) = Fin 50"
    by (simp add: toDouble_half toDouble_50)
  with l i e show ?thesis
    by simp
qed

text \<open>
  C10. A detection contributes at most 1 to the count of a technique, however many of
  its slots hold the id: in any collection, an active detection with at least one
  matching slot adds exactly 1, every other detection adds 0.
\<close>

theorem detection_counted_once:
  "getDetectionRulesForTechnique (pre @ det # post) techniqueId =
     getDetectionRulesForTechnique pre techniqueId +
     (if isActive det \<and> 0 < length (filter (\<lambda>r. JStr r = techniqueId) (techniqueRefs det))
      then 1 else 0) +
     getDetectionRulesForTechnique post techniqueId"
  by (auto simp: getDetectionRulesForTechnique_def matchesTechnique_def techniqueRefs_def)

theorem detection_counted_once_witness:
  "length (filter (\<lambda>r. JStr r = JStr ''T1059'')
     (techniqueRefs (sampleDetection ''det_1'' True ''T1059'' ''T1059'' []))) = 2 \<and>
   getDetectionRulesForTechnique
     ([] @ sampleDetection ''det_1'' True ''T1059'' ''T1059'' [] # []) (JStr ''T1059'') = 1"
  using detection_counted_once
          [of "[]" "sampleDetection ''det_1'' True ''T1059'' ''T1059'' []" "[]" "JStr ''T1059''"]
  by (simp add: sampleDetection_def techniqueRefs_def getDetectionRulesForTechnique_def)

section \<open>Strings and numbers\<close>

lemma isDigit_not_special:
  "isDigit c \<Longrightarrow>
     \<not> isWhiteSpace c \<and> c \<noteq> CHR ''-'' \<and> c \<noteq> CHR ''+'' \<and> c \<noteq> CHR ''I'' \<and> c \<noteq> CHR ''.''"
  by (auto simp: isDigit_def isWhiteSpace_def)

lemma isLetter_not_dot: "isLetter c \<Longrightarrow> c \<noteq> CHR ''.''"
  by (auto simp: isLetter_def)

lemma digitsValue_snoc:
  "digitsValue (ds @ [c]) = 10 * digitsValue ds + (of_char c - 48)"
  by (simp add: digitsValue_def)

lemma digitsValue_bound:
  "list_all isDigit ds \<Longrightarrow> digitsValue ds < 10 ^ length ds"
proof (induction ds rule: rev_induct)
  case Nil
  show ?case by (simp add: digitsValue_def)
next
  case (snoc c ds)
  from snoc.prems have "isDigit c" and "list_all isDigit ds"
    by simp_all
  from \<open>isDigit c\<close> have "(of_char c :: nat) - 48 \<le> 9"
    unfolding isDigit_def by linarith
  moreover from snoc.IH[OF \<open>list_all isDigit ds\<close>] have "digitsValue ds + 1 \<le> 10 ^ length ds"
    by simp
  then have "10 * (digitsValue ds + 1) \<le> 10 * 10 ^ length ds"
    by (rule mult_le_mono2)
  ultimately show ?case
    by (simp add: digitsValue_snoc)
qed

text \<open>A run of at most 15 digits has a value below \<open>2^53\<close>: it is a double.\<close>

lemma digitsOk_bound:
  assumes "digitsOk ds"
  shows "digitsValue ds < 10 ^ 15"
proof -
  from assms have "digitsValue ds < 10 ^ length ds"
    by (simp add: digitsOk_def digitsValue_bound)
  also from assms have "(10::nat) ^ length ds \<le> 10 ^ 15"
    by (intro power_increasing) (simp_all add: digitsOk_def)
  finally show ?thesis .
qed

text \<open>On a run of digits \<^verbatim>\<open>parseFloat\<close> returns the value of the run.\<close>

lemma parseFloat_digits:
  assumes "digitsOk ds"
  shows "parseFloat ds = Fin (of_nat (digitsValue ds))"
proof -
  from assms obtain d ds' where ds: "ds = d # ds'" and d: "isDigit d"
    and all: "list_all isDigit ds"
    by (cases ds) (auto simp: digitsOk_def)
  note sp = isDigit_not_special[OF d]
  have tw: "takeWhile isDigit ds = ds" and dw: "dropWhile isDigit ds = []"
    using all by (simp_all add: list_all_iff)
  have ws: "dropWhile isWhiteSpace ds = ds"
    using sp by (simp add: ds)
  have inf: "take 8 ds \<noteq> ''Infinity''"
    using sp by (auto simp: ds)
  have hd: "hd ds \<noteq> CHR ''-''" "hd ds \<noteq> CHR ''+''" "ds \<noteq> []"
    using sp by (simp_all add: ds)
  have "digitsValue ds < 2 ^ 53"
    using digitsOk_bound[OF assms] by simp
  then have r: "toDouble (of_nat (digitsValue ds)) = Fin (of_nat (digitsValue ds))"
    by (rule toDouble_of_nat)
  have "parseFloat ds = toDouble (of_nat (digitsValue ds))"
    unfolding parseFloat_def Let_def ws
    using inf hd by (simp add: tw dw exponentOf_def)
  with r show ?thesis
    by simp
qed

lemma splitOn_unfold:
  "splitOn c xs = takeWhile (\<lambda>x. x \<noteq> c) xs #
     (if c \<in> set xs then splitOn c (drop 1 (dropWhile (\<lambda>x. x \<noteq> c) xs)) else [])"
  by (induction xs) (auto split: list.splits)

lemma splitOn_not_Nil: "splitOn c xs \<noteq> []"
  by (cases xs) (auto split: list.splits)

lemma hd_splitOn: "hd (splitOn c xs) = takeWhile (\<lambda>x. x \<noteq> c) xs"
  by (subst splitOn_unfold) simp

lemma splitOn_single:
  "splitOn c xs = [p] \<Longrightarrow> c \<notin> set xs \<and> p = takeWhile (\<lambda>x. x \<noteq> c) xs"
  by (subst (asm) splitOn_unfold) (auto split: if_splits simp: splitOn_not_Nil)

lemma splitOn_pair:
  "splitOn c xs = [p, q] \<Longrightarrow>
     c \<in> set xs \<and> p = takeWhile (\<lambda>x. x \<noteq> c) xs \<and>
     q = takeWhile (\<lambda>x. x \<noteq> c) (drop 1 (dropWhile (\<lambda>x. x \<noteq> c) xs))"
  by (subst (asm) splitOn_unfold) (auto split: if_splits dest: splitOn_single)

section \<open>The corpus normalizer\<close>

subsection \<open>Array methods\<close>

lemma filterE_set:
  "filterE p xs = Inr ys \<Longrightarrow> y \<in> set ys \<Longrightarrow> y \<in> set xs \<and> p y = Inr True"
proof (induction xs arbitrary: ys)
  case Nil
  then show ?case by simp
next
  case (Cons x xs)
  from Cons.prems(1) obtain b r where b: "p x = Inr b" and r: "filterE p xs = Inr r"
    and ys: "ys = (if b then x # r else r)"
    by (auto simp: bindE_eq_Inr)
  show ?case
    using Cons.IH[OF r] Cons.prems(2) b ys by (auto split: if_splits)
qed

lemma mapE_set:
  "mapE f xs = Inr ys \<Longrightarrow> y \<in> set ys \<Longrightarrow> \<exists>x\<in>set xs. f x = Inr y"
proof (induction xs arbitrary: ys)
  case Nil
  then show ?case by simp
next
  case (Cons x xs)
  from Cons.prems(1) obtain z r where z: "f x = Inr z" and r: "mapE f xs = Inr r"
    and ys: "ys = z # r"
    by (auto simp: bindE_eq_Inr)
  show ?case
    using Cons.IH[OF r] Cons.prems(2) z ys by auto
qed

text \<open>Whatever the comparator does, a sort that returns has only reordered the list.\<close>

lemma insertE_mset:
  "insertE cmp x ys = Inr zs \<Longrightarrow> mset zs = add_mset x (mset ys)"
proof (induction ys arbitrary: zs)
  case Nil
  then show ?case by auto
next
  case (Cons y ys)
  from Cons.prems obtain c where c: "cmp x y = Inr c"
    and rest: "(if jsPositive c then bindE (insertE cmp x ys) (\<lambda>r. Inr (y # r))
                else Inr (x # y # ys)) = Inr zs"
    by (auto simp: bindE_eq_Inr)
  show ?case
  proof (cases "jsPositive c")
    case True
    with rest obtain r where r: "insertE cmp x ys = Inr r" and zs: "zs = y # r"
      by (auto simp: bindE_eq_Inr)
    from Cons.IH[OF r] zs show ?thesis by simp
  next
    case False
    with rest show ?thesis by auto
  qed
qed

lemma sortE_mset:
  "sortE cmp xs = Inr ys \<Longrightarrow> mset ys = mset xs"
proof (induction xs arbitrary: ys)
  case Nil
  then show ?case by simp
next
  case (Cons x xs)
  from Cons.prems obtain r where r: "sortE cmp xs = Inr r" and i: "insertE cmp x r = Inr ys"
    by (auto simp: bindE_eq_Inr)
  from insertE_mset[OF i] Cons.IH[OF r] show ?case by simp
qed

subsection \<open>Revoked and deprecated objects\<close>

lemma flagged_not_pattern: "flagged obj \<Longrightarrow> isAttackPattern obj = Inr False"
  by (cases obj) (auto simp: flagged_def isAttackPattern_def)

lemma pattern_not_flagged: "isAttackPattern obj = Inr True \<Longrightarrow> \<not> flagged obj"
  using flagged_not_pattern[of obj] by auto

lemma filterE_drop_flagged:
  "filterE isAttackPattern (filter (\<lambda>obj. \<not> flagged obj) objects) =
   filterE isAttackPattern objects"
  by (induction objects) (simp_all add: flagged_not_pattern)

lemma extractTechniques_drop_flagged:
  "extractTechniques (filter (\<lambda>obj. \<not> flagged obj) objects) = extractTechniques objects"
  by (simp add: extractTechniques_def filterE_drop_flagged)

lemma extractTechniques_origin:
  assumes "extractTechniques objects = Inr techs" "t \<in> set techs"
  shows "\<exists>obj\<in>set objects. \<not> flagged obj \<and> toTechnique obj = Inr t"
proof -
  from assms(1) obtain patterns ts where p: "filterE isAttackPattern objects = Inr patterns"
    and m: "mapE toTechnique patterns = Inr ts"
    and techs: "techs = filter (\<lambda>tech. truthy (id_tech tech)) ts"
    by (auto simp: extractTechniques_def bindE_eq_Inr)
  from assms(2) techs have "t \<in> set ts" by simp
  from mapE_set[OF m this] obtain obj where obj: "obj \<in> set patterns" "toTechnique obj = Inr t"
    by blast
  from filterE_set[OF p obj(1)] have "obj \<in> set objects" "isAttackPattern obj = Inr True"
    by simp_all
  with obj(2) show ?thesis
    by (auto dest: pattern_not_flagged)
qed

lemma getProp_JArr_truthy: "getProp v k = Inr (JArr xs) \<Longrightarrow> truthy v"
  by (cases v) auto

text \<open>Where the technique list of a successful call comes from.\<close>

lemma processAttackData_techniques:
  assumes "getProp (attackData st) ''objects'' = Inr (JArr objects)"
    and "processAttackData h st = Inr st'"
  shows "\<exists>techs. extractTechniques objects = Inr techs \<and>
           sortTechniques techs = Inr (techniques st')"
proof -
  have t: "truthy (attackData st)"
    using assms(1) by (rule getProp_JArr_truthy)
  from assms(2) show ?thesis
    unfolding processAttackData_def
    by (auto simp: t assms(1) bindE_eq_Inr)
qed

subsection \<open>Sample corpus\<close>

lemma toTechnique_sample: "toTechnique (attackPattern i []) = Inr (sampleTechnique i)"
  by (simp add: toTechnique_def attackPattern_def sampleTechnique_def isMitreRef_def
      isMitrePhase_def hd_splitOn)

lemma isAttackPattern_sample: "isAttackPattern (attackPattern i []) = Inr True"
  by (simp add: isAttackPattern_def attackPattern_def)

lemma isAttackPattern_revoked:
  "isAttackPattern (attackPattern i [(''revoked'', JBool True)]) = Inr False"
  by (simp add: isAttackPattern_def attackPattern_def)

lemma isAttackPattern_deprecated:
  "isAttackPattern (attackPattern i [(''deprecated'', JBool True)]) = Inr False"
  by (simp add: isAttackPattern_def attackPattern_def)

text \<open>
  C4. When \<^verbatim>\<open>processAttackData\<close> has built the technique list from the bundle's objects,
  every technique in it was made from an object of the bundle on which neither
  \<^verbatim>\<open>revoked\<close> nor \<^verbatim>\<open>deprecated\<close> is set; and the techniques extracted from the bundle are
  those extracted from the bundle without its flagged objects, whatever the other fields
  of these objects hold.
\<close>

theorem flagged_objects_excluded:
  assumes "getProp (attackData st) ''objects'' = Inr (JArr objects)"
    and "processAttackData h st = Inr st'"
  shows "(\<forall>t\<in>set (techniques st').
            \<exists>obj\<in>set objects. \<not> flagged obj \<and> toTechnique obj = Inr t) \<and>
         extractTechniques (filter (\<lambda>obj. \<not> flagged obj) objects) = extractTechniques objects"
proof -
  from processAttackData_techniques[OF assms] obtain techs
    where e: "extractTechniques objects = Inr techs"
      and s: "sortTechniques techs = Inr (techniques st')"
    by blast
  have "set (techniques st') = set techs"
    using sortE_mset[OF s[unfolded sortTechniques_def]] by (rule mset_eq_setD)
  then show ?thesis
    using extractTechniques_origin[OF e] by (simp add: extractTechniques_drop_flagged)
qed

lemma processAttackData_sample:
  "processAttackData sampleHost
     (initialApp\<lparr>attackData := JObj [(''objects'', JArr
        [attackPattern ''T1059'' [(''revoked'', JBool True)],
         attackPattern ''T1060'' [],
         attackPattern ''T1061'' [(''deprecated'', JBool True)]])]\<rparr>)
   = Inr (initialApp\<lparr>attackData := JObj [(''objects'', JArr
        [attackPattern ''T1059'' [(''revoked'', JBool True)],
         attackPattern ''T1060'' [],
         attackPattern ''T1061'' [(''deprecated'', JBool True)]])],
      techniques := [sampleTechnique ''T1060'']\<rparr>)"
proof -
  have v: "versionLabel sampleHost (JObj [(''objects'', JArr
        [attackPattern ''T1059'' [(''revoked'', JBool True)],
         attackPattern ''T1060'' [],
         attackPattern ''T1061'' [(''deprecated'', JBool True)]])])
        [attackPattern ''T1059'' [(''revoked'', JBool True)],
         attackPattern ''T1060'' [],
         attackPattern ''T1061'' [(''deprecated'', JBool True)]] ''Loading...'' = Inr ''Loading...''"
    by (simp add: versionLabel_def isMitreIdentity_def attackPattern_def)
  have t: "extractTactics sampleHost
        [attackPattern ''T1059'' [(''revoked'', JBool True)],
         attackPattern ''T1060'' [],
         attackPattern ''T1061'' [(''deprecated'', JBool True)]] = Inr []"
    by (simp add: extractTactics_def isTactic_def attackPattern_def)
  have e: "extractTechniques
        [attackPattern ''T1059'' [(''revoked'', JBool True)],
         attackPattern ''T1060'' [],
         attackPattern ''T1061'' [(''deprecated'', JBool True)]] = Inr [sampleTechnique ''T1060'']"
    by (simp add: extractTechniques_def isAttackPattern_sample isAttackPattern_revoked
        isAttackPattern_deprecated toTechnique_sample sampleTechnique_def)
  show ?thesis
    by (simp add: processAttackData_def initialApp_def v[unfolded initialApp_def] t e sortTechniques_def)
qed

theorem flagged_objects_excluded_witness:
  "getProp (attackData (initialApp\<lparr>attackData := JObj [(''objects'', JArr
        [attackPattern ''T1059'' [(''revoked'', JBool True)],
         attackPattern ''T1060'' [],
         attackPattern ''T1061'' [(''deprecated'', JBool True)]])]\<rparr>)) ''objects''
     = Inr (JArr
        [attackPattern ''T1059'' [(''revoked'', JBool True)],
         attackPattern ''T1060'' [],
         attackPattern ''T1061'' [(''deprecated'', JBool True)]]) \<and>
   processAttackData sampleHost
     (initialApp\<lparr>attackData := JObj [(''objects'', JArr
        [attackPattern ''T1059'' [(''revoked'', JBool True)],
         attackPattern ''T1060'' [],
         attackPattern ''T1061'' [(''deprecated'', JBool True)]])]\<rparr>)
     = Inr (initialApp\<lparr>attackData := JObj [(''objects'', JArr
        [attackPattern ''T1059'' [(''revoked'', JBool True)],
         attackPattern ''T1060'' [],
         attackPattern ''T1061'' [(''deprecated'', JBool True)]])],
      techniques := [sampleTechnique ''T1060'']\<rparr>) \<and>
   flagged (attackPattern ''T1059'' [(''revoked'', JBool True)]) \<and>
   flagged (attackPattern ''T1061'' [(''deprecated'', JBool True)]) \<and>
   (\<exists>obj\<in>set [attackPattern ''T1059'' [(''revoked'', JBool True)],
         attackPattern ''T1060'' [],
         attackPattern ''T1061'' [(''deprecated'', JBool True)]].
      \<not> flagged obj \<and> toTechnique obj = Inr (sampleTechnique ''T1060''))"
proof -
  let ?objects = "[attackPattern ''T1059'' [(''revoked'', JBool True)],
         attackPattern ''T1060'' [],
         attackPattern ''T1061'' [(''deprecated'', JBool True)]]"
  let ?st = "initialApp\<lparr>attackData := JObj [(''objects'', JArr ?objects)]\<rparr>"
  let ?st' = "initialApp\<lparr>attackData := JObj [(''objects'', JArr ?objects)],
      techniques := [sampleTechnique ''T1060'']\<rparr>"
  have g: "getProp (attackData ?st) ''objects'' = Inr (JArr ?objects)"
    by simp
  have p: "processAttackData sampleHost ?st = Inr ?st'"
    by (rule processAttackData_sample)
  have f: "flagged (attackPattern ''T1059'' [(''revoked'', JBool True)])"
    "flagged (attackPattern ''T1061'' [(''deprecated'', JBool True)])"
    by (simp_all add: flagged_def attackPattern_def)
  from flagged_objects_excluded[OF g p]
  have "\<forall>t\<in>set (techniques ?st').
          \<exists>obj\<in>set ?objects. \<not> flagged obj \<and> toTechnique obj = Inr t"
    by (rule conjunct1)
  then have "\<exists>obj\<in>set ?objects. \<not> flagged obj \<and> toTechnique obj = Inr (sampleTechnique ''T1060'')"
    by simp
  with g p f show ?thesis
    by blast
qed

subsection \<open>The order of the technique list\<close>

lemma wellFormed_split:
  assumes "wellFormedIdString s"
  obtains l rest where "s = l # rest" "isLetter l"
    "digitsOk (takeWhile (\<lambda>x. x \<noteq> CHR ''.'') rest)"
    "CHR ''.'' \<notin> set rest \<or>
       (\<exists>ds2. splitOn CHR ''.'' rest = [takeWhile (\<lambda>x. x \<noteq> CHR ''.'') rest, ds2] \<and>
          digitsOk ds2 \<and>
          ds2 = takeWhile (\<lambda>x. x \<noteq> CHR ''.'') (drop 1 (dropWhile (\<lambda>x. x \<noteq> CHR ''.'') rest)))"
proof -
  from assms obtain l rest where s: "s = l # rest" and l: "isLetter l"
    and c: "(case splitOn CHR ''.'' rest of
               [ds] \<Rightarrow> digitsOk ds
             | [ds, ds2] \<Rightarrow> digitsOk ds \<and> digitsOk ds2
             | _ \<Rightarrow> False)"
    by (cases s) (auto simp: wellFormedIdString_def)
  from c consider ds where "splitOn CHR ''.'' rest = [ds]" "digitsOk ds"
    | ds ds2 where "splitOn CHR ''.'' rest = [ds, ds2]" "digitsOk ds" "digitsOk ds2"
    by (auto split: list.splits)
  then show thesis
  proof cases
    case 1
    from splitOn_single[OF 1(1)] 1(2) show thesis
      using that[OF s l] by simp
  next
    case 2
    from splitOn_pair[OF 2(1)] 2 show thesis
      using that[OF s l] by auto
  qed
qed

text \<open>On a well-formed identifier the comparator's two numbers are the two keys.\<close>

lemma wellFormed_mainNumber:
  assumes "wellFormedIdString s"
  shows "mainNumber (JStr s) = Inr (Fin (of_nat (specLeadingNumber s)))"
proof -
  from assms obtain l rest where s: "s = l # rest"
    and d: "digitsOk (takeWhile (\<lambda>x. x \<noteq> CHR ''.'') rest)"
    by (rule wellFormed_split)
  show ?thesis
    by (simp add: mainNumber_def s hd_splitOn parseFloat_digits[OF d] specLeadingNumber_def)
qed

lemma wellFormed_subNumber:
  assumes "wellFormedIdString s"
  shows "subNumber (JStr s) = Inr (Fin (of_nat (specSuffixNumber s)))"
proof -
  from assms obtain l rest where s: "s = l # rest" and l: "isLetter l"
    and c: "CHR ''.'' \<notin> set rest \<or>
       (\<exists>ds2. splitOn CHR ''.'' rest = [takeWhile (\<lambda>x. x \<noteq> CHR ''.'') rest, ds2] \<and>
          digitsOk ds2 \<and>
          ds2 = takeWhile (\<lambda>x. x \<noteq> CHR ''.'') (drop 1 (dropWhile (\<lambda>x. x \<noteq> CHR ''.'') rest)))"
    by (rule wellFormed_split)
  have nd: "l \<noteq> CHR ''.''"
    using l by (rule isLetter_not_dot)
  from c show ?thesis
  proof
    assume "CHR ''.'' \<notin> set rest"
    then show ?thesis
      using nd by (simp add: subNumber_def s specSuffixNumber_def)
  next
    assume "\<exists>ds2. splitOn CHR ''.'' rest = [takeWhile (\<lambda>x. x \<noteq> CHR ''.'') rest, ds2] \<and>
          digitsOk ds2 \<and>
          ds2 = takeWhile (\<lambda>x. x \<noteq> CHR ''.'') (drop 1 (dropWhile (\<lambda>x. x \<noteq> CHR ''.'') rest))"
    then obtain ds2
      where sp: "splitOn CHR ''.'' rest = [takeWhile (\<lambda>x. x \<noteq> CHR ''.'') rest, ds2]"
        and d2: "digitsOk ds2"
        and e: "ds2 = takeWhile (\<lambda>x. x \<noteq> CHR ''.'') (drop 1 (dropWhile (\<lambda>x. x \<noteq> CHR ''.'') rest))"
      by blast
    have dot: "CHR ''.'' \<in> set rest"
      using splitOn_pair[OF sp] by simp
    have "subNumber (JStr s) = Inr (parseFloat ds2)"
      using nd dot by (simp add: subNumber_def s sp)
    moreover have "specSuffixNumber s = digitsValue ds2"
      using nd dot by (simp add: specSuffixNumber_def s e)
    ultimately show ?thesis
      by (simp add: parseFloat_digits[OF d2])
  qed
qed

lemma wellFormed_keys_bound:
  assumes "wellFormedIdString s"
  shows "specLeadingNumber s < 10 ^ 15 \<and> specSuffixNumber s < 10 ^ 15"
proof -
  from assms obtain l rest where s: "s = l # rest" and l: "isLetter l"
    and d: "digitsOk (takeWhile (\<lambda>x. x \<noteq> CHR ''.'') rest)"
    and c: "CHR ''.'' \<notin> set rest \<or>
       (\<exists>ds2. splitOn CHR ''.'' rest = [takeWhile (\<lambda>x. x \<noteq> CHR ''.'') rest, ds2] \<and>
          digitsOk ds2 \<and>
          ds2 = takeWhile (\<lambda>x. x \<noteq> CHR ''.'') (drop 1 (dropWhile (\<lambda>x. x \<noteq> CHR ''.'') rest)))"
    by (rule wellFormed_split)
  have nd: "l \<noteq> CHR ''.''"
    using l by (rule isLetter_not_dot)
  have m: "specLeadingNumber s < 10 ^ 15"
    using digitsOk_bound[OF d] by (simp add: specLeadingNumber_def s)
  from c have "specSuffixNumber s < 10 ^ 15"
  proof
    assume "CHR ''.'' \<notin> set rest"
    then show ?thesis
      using nd by (simp add: s specSuffixNumber_def)
  next
    assume "\<exists>ds2. splitOn CHR ''.'' rest = [takeWhile (\<lambda>x. x \<noteq> CHR ''.'') rest, ds2] \<and>
          digitsOk ds2 \<and>
          ds2 = takeWhile (\<lambda>x. x \<noteq> CHR ''.'') (drop 1 (dropWhile (\<lambda>x. x \<noteq> CHR ''.'') rest))"
    then obtain ds2
      where d2: "digitsOk ds2"
        and e: "ds2 = takeWhile (\<lambda>x. x \<noteq> CHR ''.'') (drop 1 (dropWhile (\<lambda>x. x \<noteq> CHR ''.'') rest))"
      by blast
    show ?thesis
      using digitsOk_bound[OF d2] nd by (simp add: specSuffixNumber_def s e)
  qed
  with m show ?thesis ..
qed

text \<open>The difference of two integers below \<open>10^15\<close> is computed without rounding.\<close>

lemma jsSub_nat:
  assumes "x < 10 ^ 15" "y < 10 ^ 15"
  shows "jsSub (Fin (of_nat x)) (Fin (of_nat y)) = Fin (of_int (int x - int y))"
proof -
  have "\<bar>int x - int y\<bar> < 2 ^ 53"
    using assms by simp
  then have "toDouble (of_int (int x - int y)) = Fin (of_int (int x - int y))"
    by (rule toDouble_of_int)
  then show ?thesis
    by (simp add: jsSub_def)
qed

lemma compareTechniques_wellFormed:
  assumes "wellFormedId a" "wellFormedId b"
  shows "\<exists>c. compareTechniques a b = Inr c \<and> jsPositive c = (specSortKey b < specSortKey a)"
proof -
  from assms obtain sa sb where a: "id_tech a = JStr sa" "wellFormedIdString sa"
    and b: "id_tech b = JStr sb" "wellFormedIdString sb"
    by (auto simp: wellFormedId_def split: jsval.splits)
  note ka = wellFormed_keys_bound[OF a(2)] and kb = wellFormed_keys_bound[OF b(2)]
  have m: "jsSub (Fin (of_nat (specLeadingNumber sa))) (Fin (of_nat (specLeadingNumber sb)))
      = Fin (of_int (int (specLeadingNumber sa) - int (specLeadingNumber sb)))"
    using ka kb by (intro jsSub_nat) simp_all
  have u: "jsSub (Fin (of_nat (specSuffixNumber sa))) (Fin (of_nat (specSuffixNumber sb)))
      = Fin (of_int (int (specSuffixNumber sa) - int (specSuffixNumber sb)))"
    using ka kb by (intro jsSub_nat) simp_all
  show ?thesis
    by (auto simp: compareTechniques_def a b wellFormed_mainNumber wellFormed_subNumber
        jsStrictNeq_def m u specSortKey_def less_prod_def)
qed

lemma insertE_wellFormed:
  assumes "wellFormedId x" "\<forall>t\<in>set ts. wellFormedId t"
  shows "insertE compareTechniques x ts = Inr (insort_key specSortKey x ts)"
  using assms(2)
proof (induction ts)
  case Nil
  show ?case by simp
next
  case (Cons y ys)
  from compareTechniques_wellFormed[OF assms(1), of y] Cons.prems
  obtain c where c: "compareTechniques x y = Inr c" "jsPositive c = (specSortKey y < specSortKey x)"
    by auto
  show ?case
    using Cons c by (auto simp: not_le)
qed

lemma sortE_wellFormed:
  "\<forall>t\<in>set ts. wellFormedId t \<Longrightarrow> sortE compareTechniques ts = Inr (sort_key specSortKey ts)"
  by (induction ts) (simp_all add: insertE_wellFormed)

lemma extractTechniques_two:
  "i \<noteq> [] \<Longrightarrow> j \<noteq> [] \<Longrightarrow>
     extractTechniques [attackPattern i [], attackPattern j []] =
     Inr [sampleTechnique i, sampleTechnique j]"
  by (simp add: extractTechniques_def isAttackPattern_sample toTechnique_sample sampleTechnique_def)

lemma wellFormed_T1059_000: "wellFormedId (sampleTechnique ''T1059.000'')"
  by (simp add: wellFormedId_def sampleTechnique_def wellFormedIdString_def digitsOk_def
      isDigit_def isLetter_def)

lemma wellFormed_T1059_001: "wellFormedId (sampleTechnique ''T1059.001'')"
  by (simp add: wellFormedId_def sampleTechnique_def wellFormedIdString_def digitsOk_def
      isDigit_def isLetter_def)

lemma wellFormed_T1059: "wellFormedId (sampleTechnique ''T1059'')"
  by (simp add: wellFormedId_def sampleTechnique_def wellFormedIdString_def digitsOk_def
      isDigit_def isLetter_def)

lemma wellFormed_T1060: "wellFormedId (sampleTechnique ''T1060'')"
  by (simp add: wellFormedId_def sampleTechnique_def wellFormedIdString_def digitsOk_def
      isDigit_def isLetter_def)

lemma specSortKey_T1059_000: "specSortKey (sampleTechnique ''T1059.000'') = (1059, 0)"
  by (simp add: specSortKey_def sampleTechnique_def specLeadingNumber_def specSuffixNumber_def digitsValue_def)

lemma specSortKey_T1059_001: "specSortKey (sampleTechnique ''T1059.001'') = (1059, 1)"
  by (simp add: specSortKey_def sampleTechnique_def specLeadingNumber_def specSuffixNumber_def digitsValue_def)

lemma specSortKey_T1059: "specSortKey (sampleTechnique ''T1059'') = (1059, 0)"
  by (simp add: specSortKey_def sampleTechnique_def specLeadingNumber_def specSuffixNumber_def digitsValue_def)

lemma specSortKey_T1060: "specSortKey (sampleTechnique ''T1060'') = (1060, 0)"
  by (simp add: specSortKey_def sampleTechnique_def specLeadingNumber_def specSuffixNumber_def digitsValue_def)

text \<open>
  C5, as stated, fails: a sub-technique whose suffix has the value 0 has the key of its
  parent, and the stable sort keeps the two in the order of the bundle. From a bundle
  that lists \<^verbatim>\<open>T1059.000\<close> before \<^verbatim>\<open>T1059\<close> the normalized list has the sub-technique
  before its parent.
\<close>

theorem suffix_zero_precedes_parent:
  "bindE (extractTechniques [attackPattern ''T1059.000'' [], attackPattern ''T1059'' []])
         sortTechniques
     = Inr [sampleTechnique ''T1059.000'', sampleTechnique ''T1059''] \<and>
   isSubTechnique (sampleTechnique ''T1059.000'') \<and>
   parentId (sampleTechnique ''T1059.000'') = id_tech (sampleTechnique ''T1059'')"
proof -
  have "sortE compareTechniques [sampleTechnique ''T1059.000'', sampleTechnique ''T1059'']
      = Inr (sort_key specSortKey [sampleTechnique ''T1059.000'', sampleTechnique ''T1059''])"
    by (rule sortE_wellFormed) (simp add: wellFormed_T1059_000 wellFormed_T1059)
  then have "bindE (extractTechniques [attackPattern ''T1059.000'' [], attackPattern ''T1059'' []])
         sortTechniques
     = Inr [sampleTechnique ''T1059.000'', sampleTechnique ''T1059'']"
    by (simp add: extractTechniques_two sortTechniques_def specSortKey_T1059_000 specSortKey_T1059)
  then show ?thesis
    by (simp add: sampleTechnique_def)
qed

text \<open>
  C5, amended. When every identifier is a letter, a number and optionally a dot and a
  second number, the sort returns, and its result is the technique list ordered by the
  pair (value of the leading number, value of the suffix or 0), ascending; it is a
  reordering of the list; techniques with equal keys keep their order (the sort is
  stable); and a technique with a strictly smaller key stands before one with a larger
  key. So a sub-technique whose suffix is greater than 0 stands after its parent and
  before every identifier with a greater leading number.
\<close>

theorem sortTechniques_by_numeric_keys:
  assumes "\<forall>t\<in>set techs. wellFormedId t"
  shows "\<exists>res. sortTechniques techs = Inr res \<and>
           sorted (map specSortKey res) \<and>
           mset res = mset techs \<and>
           (\<forall>k. filter (\<lambda>t. specSortKey t = k) res = filter (\<lambda>t. specSortKey t = k) techs) \<and>
           (\<forall>i j. i < length res \<and> j < length res \<and> specSortKey (res ! i) < specSortKey (res ! j)
                  \<longrightarrow> i < j)"
proof -
  let ?res = "sort_key specSortKey techs"
  have r: "sortTechniques techs = Inr ?res"
    using assms by (simp add: sortTechniques_def sortE_wellFormed)
  have s: "sorted (map specSortKey ?res)"
    by simp
  have pos: "i < j"
    if "i < length ?res" "j < length ?res" "specSortKey (?res ! i) < specSortKey (?res ! j)" for i j
  proof (rule ccontr)
    assume "\<not> i < j"
    then have "j \<le> i" by simp
    with s that(1) have "map specSortKey ?res ! j \<le> map specSortKey ?res ! i"
      by (simp add: sorted_iff_nth_mono del: sorted_sort_key)
    with that show False by simp
  qed
  show ?thesis
    using r s pos by (auto simp: sort_key_stable)
qed

theorem sortTechniques_by_numeric_keys_witness:
  "wellFormedId (sampleTechnique ''T1060'') \<and>
   wellFormedId (sampleTechnique ''T1059.001'') \<and>
   wellFormedId (sampleTechnique ''T1059'') \<and>
   sortTechniques [sampleTechnique ''T1060'', sampleTechnique ''T1059.001'', sampleTechnique ''T1059'']
     = Inr [sampleTechnique ''T1059'', sampleTechnique ''T1059.001'', sampleTechnique ''T1060''] \<and>
   (\<exists>res. sortTechniques
             [sampleTechnique ''T1060'', sampleTechnique ''T1059.001'', sampleTechnique ''T1059'']
           = Inr res \<and> sorted (map specSortKey res))"
proof -
  let ?techs = "[sampleTechnique ''T1060'', sampleTechnique ''T1059.001'', sampleTechnique ''T1059'']"
  have wf: "\<forall>t\<in>set ?techs. wellFormedId t"
    by (simp add: wellFormed_T1060 wellFormed_T1059_001 wellFormed_T1059)
  from sortTechniques_by_numeric_keys[OF wf]
  obtain res where res: "sortTechniques ?techs = Inr res" "sorted (map specSortKey res)"
    by blast
  have "sortE compareTechniques ?techs = Inr (sort_key specSortKey ?techs)"
    using wf by (rule sortE_wellFormed)
  then have "sortTechniques ?techs
      = Inr [sampleTechnique ''T1059'', sampleTechnique ''T1059.001'', sampleTechnique ''T1060'']"
    by (simp add: sortTechniques_def specSortKey_T1059_001 specSortKey_T1059 specSortKey_T1060)
  with res show ?thesis
    by (simp add: wellFormed_T1060 wellFormed_T1059_001 wellFormed_T1059)
qed

text \<open>
  In the application: when the call returns and the identifiers of its technique list
  are well formed, the list is the stable sort, by the two keys, of the extracted one.
\<close>

lemma processAttackData_order:
  assumes "getProp (attackData st) ''objects'' = Inr (JArr objects)"
    and "processAttackData h st = Inr st'"
    and "\<forall>t\<in>set (techniques st'). wellFormedId t"
  shows "\<exists>techs. extractTechniques objects = Inr techs \<and>
           techniques st' = sort_key specSortKey techs"
proof -
  from processAttackData_techniques[OF assms(1,2)] obtain techs
    where e: "extractTechniques objects = Inr techs"
      and s: "sortTechniques techs = Inr (techniques st')"
    by blast
  have "set techs = set (techniques st')"
    using sortE_mset[OF s[unfolded sortTechniques_def]] by (metis mset_eq_setD)
  with assms(3) have "\<forall>t\<in>set techs. wellFormedId t"
    by simp
  from sortE_wellFormed[OF this] s have "techniques st' = sort_key specSortKey techs"
    by (simp add: sortTechniques_def)
  with e show ?thesis
    by blast
qed

subsection \<open>Partial and malformed bundles\<close>

text \<open>
  Without a bundle, or with a bundle whose \<^verbatim>\<open>objects\<close> is absent or falsy,
  \<^verbatim>\<open>processAttackData\<close> returns at once and leaves the application as it was: after the
  constructor that is no technique, no tactic and the label \<^verbatim>\<open>'Loading...'\<close>.
\<close>

lemma processAttackData_no_bundle:
  "\<not> truthy (attackData st) \<Longrightarrow> processAttackData h st = Inr st"
  by (simp add: processAttackData_def)

lemma processAttackData_no_objects:
  "getProp (attackData st) ''objects'' = Inr v \<Longrightarrow> \<not> truthy v \<Longrightarrow>
     processAttackData h st = Inr st"
  by (simp add: processAttackData_def)

text \<open>
  An attack pattern that has none of the optional fields becomes a technique with the
  defaults; its empty id then removes it from the list.
\<close>

lemma toTechnique_defaults:
  "toTechnique (JObj [(''type'', JStr ''attack-pattern'')]) =
     Inr \<lparr>id_tech = JStr [], stixId = JUndefined, name_tech = JUndefined,
          description_tech = JUndefined, isSubTechnique = False, parentId = JNull,
          tactics_tech = [], platforms = JArr [], url = JStr []\<rparr>"
  by (simp add: toTechnique_def)

text \<open>
  The comparator of the tactic sort raises when its first argument has no name, whatever
  the second is: with two nameless tactics it raises in whichever order the engine passes
  them.
\<close>

lemma compareTactics_nameless:
  "name_tac a = JUndefined \<Longrightarrow> compareTactics h a b = Inl TypeError"
  by (simp add: compareTactics_def)

text \<open>
  C9. The normalizer does raise on a partial bundle: two tactic objects without a
  \<^verbatim>\<open>name\<close> make the comparator of the tactic sort call \<^verbatim>\<open>localeCompare\<close> on
  \<^verbatim>\<open>undefined\<close>, a \<^verbatim>\<open>TypeError\<close>, whatever the application held before.
\<close>

theorem processAttackData_nameless_tactics_raise:
  "processAttackData h
     (st\<lparr>attackData := JObj [(''objects'', JArr
        [JObj [(''type'', JStr ''x-mitre-tactic'')],
         JObj [(''type'', JStr ''x-mitre-tactic'')]])]\<rparr>)
   = Inl TypeError"
  by (simp add: processAttackData_def versionLabel_def isMitreIdentity_def extractTactics_def
      isTactic_def toTactic_def compareTactics_def)

section \<open>The detection store\<close>

lemma trim_sample_name: "trim (detectionName sampleForm) = ''Encoded PowerShell''"
  by (simp add: trim_def sampleForm_def isWhiteSpace_def)

lemma trim_blank_name: "trim ''   '' = []"
  by (simp add: trim_def isWhiteSpace_def)

text \<open>
  White space is more than the ASCII blanks: a name that is one no-break space is trimmed
  to nothing, and refused.
\<close>

lemma trim_no_break_space: "trim [CHR 0xA0] = []"
  by (simp add: trim_def isWhiteSpace_def)

lemma no_break_space_name_refused:
  "saveDetection env (f\<lparr>detectionName := [CHR 0xA0]\<rparr>) st
     = (Some ''Please enter a detection name'', st)"
  by (simp add: saveDetection_def Let_def trim_no_break_space)

text \<open>
  C7, as stated, fails: a name field that holds three spaces is not empty, yet the
  submission is refused with the alert and nothing is added, because \<^verbatim>\<open>saveDetection\<close>
  tests the trimmed text.
\<close>

theorem blank_name_refused:
  "detectionName (sampleForm\<lparr>detectionName := ''   ''\<rparr>) \<noteq> [] \<and>
   \<not> editing initialApp \<and>
   saveDetection sampleClock (sampleForm\<lparr>detectionName := ''   ''\<rparr>) initialApp
     = (Some ''Please enter a detection name'', initialApp)"
  by (simp add: saveDetection_def Let_def trim_blank_name editing_def initialApp_def)

text \<open>
  C7, amended. The name of a submission is the text of the name field without the white
  space at its two ends (the source's \<^verbatim>\<open>name\<close>; \<open>trim\<close> removes what \<^verbatim>\<open>String.prototype.trim\<close>
  removes of the characters below U+0100: tab, line feed, vertical tab, form feed, carriage
  return, space and no-break space). When the field is empty, and more generally when the name is,
  \<^verbatim>\<open>saveDetection\<close> shows the alert and returns the application unchanged: no detection
  is added, nothing is written to the local storage. When the name is not empty and no
  detection is being edited, the collection grows by exactly one record at its end, which
  carries the generated id, the name and the current time as both \<^verbatim>\<open>updatedAt\<close> and
  \<^verbatim>\<open>createdAt\<close>, and no alert is shown.
\<close>

theorem saveDetection_create:
  "(detectionName f = [] \<longrightarrow>
      saveDetection env f st = (Some ''Please enter a detection name'', st)) \<and>
   (trim (detectionName f) = [] \<longrightarrow>
      saveDetection env f st = (Some ''Please enter a detection name'', st)) \<and>
   (trim (detectionName f) \<noteq> [] \<and> \<not> editing st \<longrightarrow>
      (\<exists>d. detections (snd (saveDetection env f st)) = detections st @ [d] \<and>
           id_det d = generateId env \<and>
           name_det d = trim (detectionName f) \<and>
           updatedAt d = isoString env \<and>
           createdAt d = Some (updatedAt d)) \<and>
      fst (saveDetection env f st) = None)"
  by (simp add: saveDetection_def Let_def trim_def)

theorem saveDetection_create_witness:
  "trim (detectionName sampleForm) = ''Encoded PowerShell'' \<and>
   \<not> editing initialApp \<and>
   (\<exists>d. detections (snd (saveDetection sampleClock sampleForm initialApp)) = detections initialApp @ [d] \<and>
        id_det d = ''det_1717200000000_k3j9x0q2z'' \<and>
        name_det d = ''Encoded PowerShell'' \<and>
        createdAt d = Some ''2024-06-01T00:00:00.000Z'') \<and>
   trim (detectionName (sampleForm\<lparr>detectionName := ''   ''\<rparr>)) = [] \<and>
   saveDetection sampleClock (sampleForm\<lparr>detectionName := ''   ''\<rparr>) initialApp
     = (Some ''Please enter a detection name'', initialApp) \<and>
   saveDetection sampleClock (sampleForm\<lparr>detectionName := []\<rparr>) initialApp
     = (Some ''Please enter a detection name'', initialApp)"
proof -
  have e: "\<not> editing initialApp"
    by (simp add: editing_def initialApp_def)
  have n: "trim (detectionName sampleForm) \<noteq> []"
    by (simp add: trim_sample_name)
  from saveDetection_create[of sampleForm sampleClock initialApp] n e
  obtain d where d: "detections (snd (saveDetection sampleClock sampleForm initialApp)) = detections initialApp @ [d]"
    "id_det d = generateId sampleClock" "name_det d = trim (detectionName sampleForm)"
    "updatedAt d = isoString sampleClock" "createdAt d = Some (updatedAt d)"
    by blast
  have g: "generateId sampleClock = ''det_1717200000000_k3j9x0q2z''"
    by (simp add: generateId_def sampleClock_def)
  have i: "isoString sampleClock = ''2024-06-01T00:00:00.000Z''"
    by (simp add: sampleClock_def)
  have b: "saveDetection sampleClock (sampleForm\<lparr>detectionName := ''   ''\<rparr>) initialApp
     = (Some ''Please enter a detection name'', initialApp)"
    using saveDetection_create[of "sampleForm\<lparr>detectionName := ''   ''\<rparr>" sampleClock initialApp]
      trim_blank_name by simp
  have c: "saveDetection sampleClock (sampleForm\<lparr>detectionName := []\<rparr>) initialApp
     = (Some ''Please enter a detection name'', initialApp)"
    using saveDetection_create[of "sampleForm\<lparr>detectionName := []\<rparr>" sampleClock initialApp]
    by simp
  from d g i have "\<exists>d. detections (snd (saveDetection sampleClock sampleForm initialApp)) = detections initialApp @ [d] \<and>
        id_det d = ''det_1717200000000_k3j9x0q2z'' \<and>
        name_det d = ''Encoded PowerShell'' \<and>
        createdAt d = Some ''2024-06-01T00:00:00.000Z''"
    by (auto simp: trim_sample_name)
  with e b c show ?thesis
    by (simp add: trim_sample_name trim_blank_name)
qed

text \<open>
  What an edit keeps: when the detection being edited is in the collection and the name
  is not empty, the record at its position is replaced, with the same id and the current
  time as \<^verbatim>\<open>updatedAt\<close>; the collection keeps its length and its other records.
\<close>

lemma findIndex_Some:
  "findIndex p xs = Some i \<Longrightarrow> i < length xs \<and> p (xs ! i)"
proof (induction xs arbitrary: i)
  case Nil
  then show ?case by simp
next
  case (Cons x xs)
  then show ?case
    by (cases "p x") auto
qed

lemma saveDetection_edit_frame:
  assumes "editingDetectionId st = Some eid" "eid \<noteq> []"
    and "findIndex (\<lambda>d. id_det d = eid) (detections st) = Some index"
    and "trim (detectionName f) \<noteq> []"
  shows "length (detections (snd (saveDetection env f st))) = length (detections st) \<and>
         id_det (detections (snd (saveDetection env f st)) ! index) = id_det (detections st ! index) \<and>
         updatedAt (detections (snd (saveDetection env f st)) ! index) = isoString env \<and>
         (\<forall>j. j \<noteq> index \<longrightarrow>
            detections (snd (saveDetection env f st)) ! j = detections st ! j)"
  using assms findIndex_Some[OF assms(3)]
  by (simp add: saveDetection_def Let_def editing_def)

text \<open>But the record put in place has no \<^verbatim>\<open>createdAt\<close>, whatever the stored one had.\<close>

lemma saveDetection_edit_createdAt:
  assumes "editingDetectionId st = Some eid" "eid \<noteq> []"
    and "findIndex (\<lambda>d. id_det d = eid) (detections st) = Some index"
    and "trim (detectionName f) \<noteq> []"
  shows "createdAt (detections (snd (saveDetection env f st)) ! index) = None"
  using assms findIndex_Some[OF assms(3)]
  by (simp add: saveDetection_def Let_def editing_def)

text \<open>
  Switching off the only active detection that refers to a technique makes the technique
  \<^verbatim>\<open>'not detected'\<close>.
\<close>

lemma toggle_off_only_reference:
  assumes "findIndex (\<lambda>d. id_det d = detectionId) (detections st) = Some index"
    and "isActive (detections st ! index)"
    and "\<forall>j < length (detections st). j \<noteq> index \<longrightarrow>
           \<not> matchesTechnique (id_tech tech) (detections st ! j)"
  shows "getTechniqueStatus (detections (toggleDetectionActive detectionId st)) tech
           = ''not detected''"
proof -
  let ?dets = "(detections st)[index := (detections st ! index)\<lparr>isActive := False\<rparr>]"
  have i: "index < length (detections st)"
    using findIndex_Some[OF assms(1)] by simp
  have "\<not> matchesTechnique (id_tech tech) (?dets ! j)" if "j < length ?dets" for j
  proof (cases "j = index")
    case True
    with i show ?thesis by (simp add: matchesTechnique_def)
  next
    case False
    with that assms(3) show ?thesis by simp
  qed
  then have "\<forall>d\<in>set ?dets. \<not> matchesTechnique (id_tech tech) d"
    by (metis in_set_conv_nth)
  then have "getDetectionRulesForTechnique ?dets (id_tech tech) = 0"
    by (simp add: getDetectionRulesForTechnique_def filter_empty_conv)
  then show ?thesis
    using assms(1,2) by (simp add: toggleDetectionActive_def Let_def getTechniqueStatus_def)
qed

text \<open>
  C8. An edit does not keep \<^verbatim>\<open>createdAt\<close>: the object that replaces the stored record is
  built without it, and only the create path adds it. Editing the one stored detection,
  created on 2024-01-01, leaves a record with the same id and no \<^verbatim>\<open>createdAt\<close>.
\<close>

theorem saveDetection_edit_drops_createdAt:
  "detections (snd (saveDetection sampleClock sampleForm
     (initialApp\<lparr>detections := [sampleDetection ''det_1'' True ''T1059'' [] []],
                 editingDetectionId := Some ''det_1''\<rparr>)))
   = [\<lparr>id_det = ''det_1'', name_det = ''Encoded PowerShell'',
       description_det = ''Base64 command line'', platform = ''Windows'', severity = ''High'',
       isActive = True, technique1 = ''T1059.001'', technique2 = [], technique3 = [],
       updatedAt = ''2024-06-01T00:00:00.000Z'', createdAt = None\<rparr>] \<and>
   createdAt (sampleDetection ''det_1'' True ''T1059'' [] []) = Some ''2024-01-01T00:00:00.000Z''"
  by (simp add: saveDetection_def Let_def editing_def initialApp_def sampleDetection_def
      sampleForm_def sampleClock_def trim_def asciiUpperCase_def isWhiteSpace_def)

text \<open>
  C6. A document whose \<^verbatim>\<open>detections\<close> is a truthy value that is no array, here the
  string \<^verbatim>\<open>"oops"\<close>, replaces the collection and is written to the local storage, whatever
  drawing the page does afterwards; an error is reported only if drawing raises.
\<close>

theorem importData_non_array_replaces_store:
  "importData renderRaises (Some (JObj [(''detections'', JStr ''oops'')]))
     \<lparr>detections_raw = JArr old, localStorage_raw = Some (JArr old)\<rparr>
   = (if renderRaises (JStr ''oops'')
      then ''Error importing data. Please check the file format.''
      else ''Data imported successfully!'',
      \<lparr>detections_raw = JStr ''oops'', localStorage_raw = Some (JStr ''oops'')\<rparr>)"
  by (simp add: importData_def)

text \<open>
  A document whose \<^verbatim>\<open>detections\<close> is falsy (here the number 0) leaves the collection as
  it is, and the import is reported as a success when drawing the page does not raise.
  A text that is no JSON is reported as an error and changes nothing.
\<close>

lemma importData_falsy_reports_success:
  "\<not> renderRaises (detections_raw st) \<Longrightarrow>
     importData renderRaises (Some (JObj [(''detections'', JNum 0)])) st
     = (''Data imported successfully!'', st\<lparr>localStorage_raw := Some (detections_raw st)\<rparr>)"
  by (simp add: importData_def)

lemma importData_unparsable:
  "importData renderRaises None st
     = (''Error importing data. Please check the file format.'', st)"
  by (simp add: importData_def)

end
